theory Spec2Isabelle
  imports Main
begin

section \<open>Python strings, lists and dictionaries\<close>

text \<open>
  A Python \<^verbatim>\<open>str\<close> is modelled as a \<^typ>\<open>string\<close> whose characters are the code points
  below 256. \<^verbatim>\<open>str.isspace\<close> holds there for the twelve code points listed below, and
  \<^verbatim>\<open>str.strip()\<close> without an argument removes exactly those from both ends.
\<close>

definition isspace :: "char \<Rightarrow> bool" where
  "isspace c = (c \<in> set [CHR 0x09, CHR 0x0A, CHR 0x0B, CHR 0x0C, CHR 0x0D, CHR 0x1C,
                          CHR 0x1D, CHR 0x1E, CHR 0x1F, CHR 0x20, CHR 0x85, CHR 0xA0])"

definition strip :: "string \<Rightarrow> string" where
  "strip s = rev (dropWhile isspace (rev (dropWhile isspace s)))"

definition startswith :: "string \<Rightarrow> string \<Rightarrow> bool" where
  "startswith s p = (take (length p) s = p)"

text \<open>
  \<^verbatim>\<open>s.replace(old, new)\<close>: every non-overlapping occurrence of \<open>old\<close>, found from the
  left, is replaced; an empty \<open>old\<close> matches before every character and at the end.
\<close>

function replace :: "string \<Rightarrow> string \<Rightarrow> string \<Rightarrow> string" where
  "replace s old new =
     (if old = [] then concat (map (\<lambda>c. new @ [c]) s) @ new
      else if s = [] then []
      else if startswith s old then new @ replace (drop (length old) s) old new
      else hd s # replace (tl s) old new)"
  by pat_completeness auto
termination
  by (relation "measure (\<lambda>(s, old, new). length s)") auto

declare replace.simps [simp del]

text \<open>
  Exceptions are values. \<open>IndexError\<close> is a list subscript out of range, \<open>KeyError\<close> a
  dictionary subscript of a missing key; \<open>Raised\<close> is any exception that the delivery
  call lets escape, named by its class.
\<close>

datatype py_error = IndexError | KeyError | Raised string

definition and_then :: "py_error + 'a \<Rightarrow> ('a \<Rightarrow> py_error + 'b) \<Rightarrow> py_error + 'b" where
  "and_then m f = (case m of Inl e \<Rightarrow> Inl e | Inr x \<Rightarrow> f x)"

text \<open>\<^verbatim>\<open>xs[i]\<close> for a literal index \<open>i \<ge> 0\<close>.\<close>

definition getitem :: "'a list \<Rightarrow> nat \<Rightarrow> py_error + 'a" where
  "getitem xs i = (if i < length xs then Inr (xs ! i) else Inl IndexError)"

text \<open>\<^verbatim>\<open>row[i] if len(row) > i else ""\<close>: the subscript is only evaluated in range.\<close>

definition item_or_empty :: "string list \<Rightarrow> nat \<Rightarrow> string" where
  "item_or_empty row i = (if length row > i then row ! i else [])"

text \<open>A dictionary with string keys; \<^verbatim>\<open>d.get(k, default)\<close> and \<^verbatim>\<open>d[k]\<close>.\<close>

type_synonym 'v dict = "string \<Rightarrow> 'v option"

definition dict_get :: "'v dict \<Rightarrow> string \<Rightarrow> 'v \<Rightarrow> 'v" where
  "dict_get d k dflt = (case d k of None \<Rightarrow> dflt | Some v \<Rightarrow> v)"

definition dict_item :: "'v dict \<Rightarrow> string \<Rightarrow> py_error + 'v" where
  "dict_item d k = (case d k of None \<Rightarrow> Inl KeyError | Some v \<Rightarrow> Inr v)"

section \<open>pflib: the plane database\<close>

text \<open>
  The functions of \<^verbatim>\<open>pflib/__init__.py\<close> (the copy under \<^verbatim>\<open>dist-packages\<close>, the one that
  has the \<^verbatim>\<open>send\<close> and the \<^verbatim>\<open>DISCORD_FEEDER_NAME\<close> setting that
  \<^verbatim>\<open>send-discord-alert.py\<close> uses). A feed file is given as the rows that \<^verbatim>\<open>csv.reader\<close>
  yields for it: a list of fields per line, and the empty list for a blank line. Opening
  the file and console logging are outside the model.

  A database entry is the dictionary that \<^verbatim>\<open>load_planefile\<close> builds, and the global
  \<^verbatim>\<open>planedb\<close> is passed explicitly.
\<close>

type_synonym plane = "string dict"
type_synonym planedb = "plane dict"

text \<open>\<^verbatim>\<open>row[0].startswith("#") or not row\<close>: the subscript is evaluated first.\<close>

definition plane_row_skipped :: "string list \<Rightarrow> py_error + bool" where
  "plane_row_skipped row =
     and_then (getitem row 0) (\<lambda>first. Inr (if startswith first ''#'' then True else row = []))"

definition plane_of_row :: "string list \<Rightarrow> py_error + plane" where
  "plane_of_row row =
     and_then (getitem row 0) (\<lambda>r0.
     and_then (getitem row 1) (\<lambda>r1.
     and_then (getitem row 2) (\<lambda>r2.
     and_then (getitem row 3) (\<lambda>r3.
       Inr (map_of
         [(''icao'', r0),
          (''tail_num'', r1),
          (''owner'', r2),
          (''type'', r3),
          (''icao_type'', item_or_empty row 4),
          (''authority'', item_or_empty row 5),
          (''tag1'', item_or_empty row 6),
          (''tag2'', item_or_empty row 7),
          (''tag3'', item_or_empty row 8),
          (''category'', item_or_empty row 9),
          (''link'', item_or_empty row 10)])))))"

fun load_planefile_loop :: "string list list \<Rightarrow> planedb \<Rightarrow> py_error + planedb" where
  "load_planefile_loop [] planedb = Inr planedb"
| "load_planefile_loop (row # reader) planedb =
     and_then (plane_row_skipped row) (\<lambda>skip.
       if skip then load_planefile_loop reader planedb
       else
         and_then (plane_of_row row) (\<lambda>plane.
         and_then (dict_item plane ''icao'') (\<lambda>key.
           load_planefile_loop reader (planedb(key \<mapsto> plane)))))"

definition load_planefile :: "string list list \<Rightarrow> py_error + planedb" where
  "load_planefile reader = load_planefile_loop reader Map.empty"

definition get_plane_info :: "planedb \<Rightarrow> string \<Rightarrow> plane" where
  "get_plane_info planedb key = dict_get planedb key Map.empty"

definition flightaware_link :: "string \<Rightarrow> string \<Rightarrow> string" where
  "flightaware_link icao0 tail_num0 =
     (let icao1 = strip icao0;
          icao2 = replace icao1 ''['' '''';
          icao3 = replace icao2 '']'' '''';
          tail_num1 = strip tail_num0;
          tail_num2 = replace tail_num1 ''['' '''';
          tail_num3 = replace tail_num2 '']'' ''''
      in ''https://flightaware.com/live/modes/'' @ icao3 @ ''/ident/'' @ tail_num3 @ ''/redirect'')"

text \<open>
  The older copy of the module under \<^verbatim>\<open>python3.7\<close> (it has no \<^verbatim>\<open>send\<close>, so the alert
  script cannot run against it) interpolates both identifiers as they are and carries a
  stray closing bracket in its format string.
\<close>

definition flightaware_link_py37 :: "string \<Rightarrow> string \<Rightarrow> string" where
  "flightaware_link_py37 icao0 tail_num0 =
     ''https://flightaware.com/live/modes/'' @ icao0 @ ''/ident/'' @ tail_num0 @ '']/redirect''"

definition is_emergency :: "string \<Rightarrow> bool" where
  "is_emergency sq = (sq \<in> set [''7700'', ''7600'', ''7500''])"

section \<open>send-discord-alert: the alert loader\<close>

text \<open>
  The dictionary that \<^verbatim>\<open>load_alerts\<close> appends has the same eleven keys for every row, so
  it is a record.
\<close>

record alert =
  icao :: string
  tail_num :: string
  owner :: string
  plane_desc :: string
  date :: string
  time :: string
  lat :: string
  long :: string
  callsign :: string
  adsbx_url :: string
  squawk :: string

text \<open>\<^verbatim>\<open>len(row) < 10 or row[0].startswith("#")\<close>: the length test comes first.\<close>

definition alert_row_skipped :: "string list \<Rightarrow> py_error + bool" where
  "alert_row_skipped row =
     (if length row < 10 then Inr True
      else and_then (getitem row 0) (\<lambda>first. Inr (startswith first ''#'')))"

definition alert_of_row :: "string list \<Rightarrow> py_error + alert" where
  "alert_of_row row =
     and_then (getitem row 0) (\<lambda>r0.
     and_then (getitem row 1) (\<lambda>r1.
     and_then (getitem row 2) (\<lambda>r2.
     and_then (getitem row 3) (\<lambda>r3.
     and_then (getitem row 4) (\<lambda>r4.
     and_then (getitem row 5) (\<lambda>r5.
     and_then (getitem row 6) (\<lambda>r6.
     and_then (getitem row 7) (\<lambda>r7.
     and_then (getitem row 8) (\<lambda>r8.
     and_then (getitem row 9) (\<lambda>r9.
       Inr \<lparr>icao = strip r0,
            tail_num = strip r1,
            owner = strip r2,
            plane_desc = r3,
            date = r4,
            time = r5,
            lat = r6,
            long = r7,
            callsign = strip r8,
            adsbx_url = r9,
            squawk = item_or_empty row 10\<rparr>))))))))))"

fun load_alerts_loop :: "string list list \<Rightarrow> alert list \<Rightarrow> py_error + alert list" where
  "load_alerts_loop [] alerts = Inr alerts"
| "load_alerts_loop (row # reader) alerts =
     and_then (alert_row_skipped row) (\<lambda>skip.
       if skip then load_alerts_loop reader alerts
       else and_then (alert_of_row row) (\<lambda>a. load_alerts_loop reader (alerts @ [a])))"

definition load_alerts :: "string list list \<Rightarrow> py_error + alert list" where
  "load_alerts reader = load_alerts_loop reader []"

text \<open>
  The validity bar as the specification words it, to compare the loader with: a row is
  rejected if it has fewer than 10 fields or its first field starts with \<open>#\<close>.
\<close>

definition spec_valid_alert_row :: "string list \<Rightarrow> bool" where
  "spec_valid_alert_row row =
     (case row of [] \<Rightarrow> False | first # _ \<Rightarrow> \<not> (length row < 10 \<or> startswith first ''#''))"

section \<open>send-discord-alert: building and sending the notifications\<close>

text \<open>
  Modelled from the spec: \<^verbatim>\<open>pflib/embed.py\<close> (\<^verbatim>\<open>pf.embed.build\<close>, \<^verbatim>\<open>pf.embed.field\<close>) is
  not among the sources. The specification describes the payload as a title, a
  description, a colour and an ordered list of label/value pairs, to which a pair is
  appended.
\<close>

record embed =
  title :: string
  description :: string
  color :: int
  embed_fields :: "(string \<times> string) list"

definition embed_build :: "string \<Rightarrow> string \<Rightarrow> int \<Rightarrow> embed" where
  "embed_build t d c = \<lparr>title = t, description = d, color = c, embed_fields = []\<rparr>"

definition embed_field :: "embed \<Rightarrow> string \<Rightarrow> string \<Rightarrow> embed" where
  "embed_field e name val = e\<lparr>embed_fields := embed_fields e @ [(name, val)]\<rparr>"

text \<open>
  The settings that \<^verbatim>\<open>process_alerts\<close> reads are strings; the configuration is a
  dictionary of them.
\<close>

type_synonym config = "string dict"

text \<open>
  \<^verbatim>\<open>if d.get(key, "") != "": pf.embed.field(embed, name, render(d[key]))\<close>
\<close>

definition field_if_set ::
  "embed \<Rightarrow> string dict \<Rightarrow> string \<Rightarrow> string \<Rightarrow> (string \<Rightarrow> string) \<Rightarrow> py_error + embed" where
  "field_if_set e d key name render =
     (if dict_get d key '''' \<noteq> ''''
      then and_then (dict_item d key) (\<lambda>v. Inr (embed_field e name (render v)))
      else Inr e)"

text \<open>The body of the loop of \<^verbatim>\<open>process_alerts\<close>, up to the call of \<^verbatim>\<open>pf.send\<close>.\<close>

definition alert_embed :: "config \<Rightarrow> planedb \<Rightarrow> alert \<Rightarrow> py_error + embed" where
  "alert_embed cfg planedb plane =
     (let dbinfo = get_plane_info planedb (icao plane);
          fa_link = flightaware_link (icao plane) (tail_num plane);
          sq = squawk plane;
          title0 = (if is_emergency sq
                    then ''Air Emergency! '' @ tail_num plane @ '' squawked '' @ sq
                    else ''Plane Alert - '' @ plane_desc plane);
          color0 = (if is_emergency sq then 0xff0000 else 0xf2e718);
          description0 = (if owner plane \<noteq> ''''
                          then ''Operated by **'' @ owner plane @ ''**'' else '''');
          description1 = description0 @ [CHR 0x0A] @ ''[Track on ADS-B Exchange]('' @
                           adsbx_url plane @ '')'';
          embed0 = embed_build title0 description1 color0
      in
        and_then (field_if_set embed0 cfg ''DISCORD_FEEDER_NAME'' ''Feeder'' (\<lambda>v. v)) (\<lambda>embed1.
        let embed2 = embed_field embed1 ''ICAO'' (icao plane);
            embed3 = embed_field embed2 ''Tail Number''
                       (''['' @ tail_num plane @ '']('' @ fa_link @ '')'');
            embed4 = (if callsign plane \<noteq> ''''
                      then embed_field embed3 ''Callsign'' (callsign plane) else embed3)
        in
        and_then (field_if_set embed4 dbinfo ''category'' ''Category'' (\<lambda>v. v)) (\<lambda>embed5.
        and_then (field_if_set embed5 dbinfo ''tag1'' ''Tag'' (\<lambda>v. v)) (\<lambda>embed6.
        and_then (field_if_set embed6 dbinfo ''tag2'' ''Tag'' (\<lambda>v. v)) (\<lambda>embed7.
        and_then (field_if_set embed7 dbinfo ''tag3'' ''Tag'' (\<lambda>v. v)) (\<lambda>embed8.
          field_if_set embed8 dbinfo ''link'' ''Link''
            (\<lambda>v. ''[Learn More]('' @ v @ '')'')))))))"

text \<open>
  \<^verbatim>\<open>pf.send(config, "PA", embed)\<close> hands the payload to the webhook transport. It is a
  parameter here: a function of the state of the outside world \<open>w\<close> that either returns
  (\<open>None\<close>; its return value is not used) or lets an exception escape (\<open>Some e\<close>).
  Neither \<^verbatim>\<open>pf.send\<close> nor \<^verbatim>\<open>process_alerts\<close> has an exception handler. The last
  argument records the payloads handed to \<^verbatim>\<open>pf.send\<close> so far.
\<close>

type_synonym 'w sender = "'w \<Rightarrow> config \<Rightarrow> string \<Rightarrow> embed \<Rightarrow> py_error option \<times> 'w"

fun process_alerts ::
  "'w sender \<Rightarrow> planedb \<Rightarrow> config \<Rightarrow> alert list \<Rightarrow> 'w \<Rightarrow> embed list
     \<Rightarrow> py_error option \<times> 'w \<times> embed list" where
  "process_alerts send planedb cfg [] w handed = (None, w, handed)"
| "process_alerts send planedb cfg (plane # alerts) w handed =
     (case alert_embed cfg planedb plane of
        Inl e \<Rightarrow> (Some e, w, handed)
      | Inr em \<Rightarrow>
          (case send w cfg ''PA'' em of
             (Some e, w') \<Rightarrow> (Some e, w', handed @ [em])
           | (None, w') \<Rightarrow> process_alerts send planedb cfg alerts w' (handed @ [em])))"

section \<open>The end-to-end scenario of the specification\<close>

text \<open>
  One row of the reference feed, one row of the alert feed, and what the two loaders
  make of them.
\<close>

definition example_reference_row :: "string list" where
  "example_reference_row =
     [''A51316'', ''N426NA'', ''NASA'', ''Lockheed P-3B Orion'', ''P3'', ''Gov'', ''Sce To Aux'',
      ''Airborne Science'', ''Wallops Flight Facility'', ''Distinctive'', ''https://nasa.gov'']"

definition example_alert_row :: "string list" where
  "example_alert_row =
     [''A51316'', ''N426NA'', ''NASA'', ''Lockheed P-3B Orion'', ''2022-01-01'', ''12:00:00'',
      ''10.0'', ''-70.0'', ''NASA1'', ''https://adsbexchange.com/x'', ''1200'']"

definition example_alert :: alert where
  "example_alert =
     \<lparr>icao = ''A51316'', tail_num = ''N426NA'', owner = ''NASA'',
      plane_desc = ''Lockheed P-3B Orion'', date = ''2022-01-01'', time = ''12:00:00'',
      lat = ''10.0'', long = ''-70.0'', callsign = ''NASA1'',
      adsbx_url = ''https://adsbexchange.com/x'', squawk = ''1200''\<rparr>"

definition example_plane :: plane where
  "example_plane =
     map_of
       [(''icao'', ''A51316''), (''tail_num'', ''N426NA''), (''owner'', ''NASA''),
        (''type'', ''Lockheed P-3B Orion''), (''icao_type'', ''P3''), (''authority'', ''Gov''),
        (''tag1'', ''Sce To Aux''), (''tag2'', ''Airborne Science''),
        (''tag3'', ''Wallops Flight Facility''), (''category'', ''Distinctive''),
        (''link'', ''https://nasa.gov'')]"

text \<open>
  An alert row whose identifiers are blank, and the record the loader makes of it.
\<close>

definition blank_alert :: alert where
  "blank_alert =
     \<lparr>icao = '''', tail_num = '''', owner = '''', plane_desc = ''Unknown'',
      date = ''2022-01-01'', time = ''12:00:00'', lat = ''10.0'', long = ''-70.0'',
      callsign = '''', adsbx_url = ''https://adsbexchange.com/x'', squawk = ''''\<rparr>"

definition blank_alert_row :: "string list" where
  "blank_alert_row =
     ['' '', '''', '''', ''Unknown'', ''2022-01-01'', ''12:00:00'', ''10.0'', ''-70.0'', '''',
      ''https://adsbexchange.com/x'']"

text \<open>
  More rows of a reference feed: a second row for the aircraft of the scenario, and a row
  whose first field has a leading space.
\<close>

definition duplicate_reference_row :: "string list" where
  "duplicate_reference_row = [''A51316'', ''N999ZZ'', ''Nobody'', ''Cessna 172'']"

definition duplicate_plane :: plane where
  "duplicate_plane =
     map_of
       [(''icao'', ''A51316''), (''tail_num'', ''N999ZZ''), (''owner'', ''Nobody''),
        (''type'', ''Cessna 172''), (''icao_type'', []), (''authority'', []),
        (''tag1'', []), (''tag2'', []), (''tag3'', []), (''category'', []),
        (''link'', [])]"

definition spaced_reference_row :: "string list" where
  "spaced_reference_row = ['' A51316'', ''N426NA'', ''NASA'', ''Lockheed P-3B Orion'']"

text \<open>
  Two delivery collaborators, whose world is the number of calls made so far: one lets
  an exception escape from its first call, the other from its second call.
\<close>

definition raise_on_first :: "nat sender" where
  "raise_on_first w cfg subsystem em =
     (if w = 0 then Some (Raised ''ConnectionError'') else None, Suc w)"

definition raise_on_second :: "nat sender" where
  "raise_on_second w cfg subsystem em =
     (if w = 1 then Some (Raised ''ConnectionError'') else None, Suc w)"

section \<open>Lemmas on strings and results\<close>

lemma and_then_Inr [simp]: "and_then (Inr x) f = f x"
  by (simp add: and_then_def)

lemma and_then_Inl [simp]: "and_then (Inl e) f = Inl e"
  by (simp add: and_then_def)

lemma replace_Nil: "replace [] [c] new = []"
  by (subst replace.simps) simp

lemma replace_char_Cons:
  "replace (x # s) [c] new = (if x = c then new @ replace s [c] new else x # replace s [c] new)"
  by (subst replace.simps) (simp add: startswith_def)

lemma replace_char_empty: "replace s [c] [] = filter (\<lambda>x. x \<noteq> c) s"
  by (induction s) (simp_all add: replace_Nil replace_char_Cons)

lemma dropWhile_idem: "dropWhile P (dropWhile P xs) = dropWhile P xs"
  by (induction xs) auto

lemma strip_Nil_or_ends:
  "strip s = [] \<or> (\<not> isspace (hd (strip s)) \<and> \<not> isspace (last (strip s)))"
proof (cases "strip s = []")
  case True
  then show ?thesis by simp
next
  case False
  let ?a = "dropWhile isspace s"
  let ?b = "dropWhile isspace (rev ?a)"
  from False have b: "?b \<noteq> []" by (simp add: strip_def)
  then have hb: "\<not> isspace (hd ?b)" by (rule hd_dropWhile)
  have "?a \<noteq> []"
  proof
    assume "?a = []"
    then have "rev ?a = []" by (simp only: rev.simps)
    then have "?b = []" by (simp only: dropWhile.simps)
    with b show False by simp
  qed
  then have ha: "\<not> isspace (hd ?a)" by (rule hd_dropWhile)
  have "last (strip s) = hd ?b" using b by (simp add: strip_def last_rev)
  moreover have "hd (strip s) = hd ?a"
  proof -
    obtain ys where ys: "rev ?a = ys @ ?b"
      by (metis takeWhile_dropWhile_id)
    then have "?a = rev ?b @ rev ys" by (metis rev_append rev_rev_ident)
    then have "hd ?a = hd (rev ?b)" using b by (metis hd_append2 rev_is_Nil_conv)
    then show ?thesis by (simp add: strip_def)
  qed
  ultimately show ?thesis using ha hb by simp
qed

lemma dropWhile_noop: "xs = [] \<or> \<not> P (hd xs) \<Longrightarrow> dropWhile P xs = xs"
  by (cases xs) auto

lemma strip_noop: "s = [] \<or> (\<not> isspace (hd s) \<and> \<not> isspace (last s)) \<Longrightarrow> strip s = s"
  by (cases "s = []") (auto simp: strip_def dropWhile_noop hd_rev)

lemma strip_idem: "strip (strip s) = strip s"
  using strip_Nil_or_ends [of s] by (intro strip_noop) auto

section \<open>Lemmas on the alert loader and the payload\<close>

lemma alert_of_row_long:
  "10 \<le> length row \<Longrightarrow>
   alert_of_row row =
     Inr \<lparr>icao = strip (row ! 0), tail_num = strip (row ! 1), owner = strip (row ! 2),
          plane_desc = row ! 3, date = row ! 4, time = row ! 5, lat = row ! 6,
          long = row ! 7, callsign = strip (row ! 8), adsbx_url = row ! 9,
          squawk = (if 10 < length row then row ! 10 else '''')\<rparr>"
  by (auto simp: alert_of_row_def getitem_def item_or_empty_def)

lemma alert_row_skipped_spec: "alert_row_skipped row = Inr (\<not> spec_valid_alert_row row)"
  by (cases row) (auto simp: alert_row_skipped_def spec_valid_alert_row_def getitem_def)

lemma spec_valid_alert_row_length: "spec_valid_alert_row row \<Longrightarrow> 10 \<le> length row"
  by (cases row) (auto simp: spec_valid_alert_row_def)

lemma load_alerts_loop_spec:
  "\<exists>new. load_alerts_loop reader alerts = Inr (alerts @ new) \<and>
         map Inr new = map alert_of_row (filter spec_valid_alert_row reader)"
proof (induction reader arbitrary: alerts)
  case Nil
  then show ?case by simp
next
  case (Cons row reader)
  show ?case
  proof (cases "spec_valid_alert_row row")
    case False
    then show ?thesis using Cons.IH [of alerts] by (simp add: alert_row_skipped_spec)
  next
    case True
    then obtain a where a: "alert_of_row row = Inr a"
      using alert_of_row_long spec_valid_alert_row_length by blast
    from Cons.IH [of "alerts @ [a]"] obtain new where
      new: "load_alerts_loop reader (alerts @ [a]) = Inr ((alerts @ [a]) @ new)"
           "map Inr new = map alert_of_row (filter spec_valid_alert_row reader)"
      by blast
    have "load_alerts_loop (row # reader) alerts = Inr (alerts @ (a # new))"
      using True a new(1) by (simp add: alert_row_skipped_spec)
    moreover have "map Inr (a # new) = map alert_of_row (filter spec_valid_alert_row (row # reader))"
      using True a new(2) by simp
    ultimately show ?thesis by blast
  qed
qed

lemma field_if_set_total:
  "field_if_set e d key name render =
     Inr (if dict_get d key '''' \<noteq> '''' then embed_field e name (render (dict_get d key ''''))
          else e)"
  by (auto simp: field_if_set_def dict_get_def dict_item_def split: option.splits)

lemma field_if_set_upd:
  "field_if_set e d key name render =
     Inr (embed_fields_update
           (\<lambda>fs. fs @ (if dict_get d key '''' \<noteq> ''''
                        then [(name, render (dict_get d key ''''))] else [])) e)"
  by (simp add: field_if_set_total embed_field_def)

lemma embed_field_upd:
  "embed_field e name val = embed_fields_update (\<lambda>fs. fs @ [(name, val)]) e"
  by (simp add: embed_field_def)

lemma embed_field_if:
  "(if c then embed_field e name val else e) =
     embed_fields_update (\<lambda>fs. fs @ (if c then [(name, val)] else [])) e"
  by (simp add: embed_field_def)

lemma alert_embed_total:
  "alert_embed cfg planedb plane =
     Inr \<lparr>title = (if is_emergency (squawk plane)
                   then ''Air Emergency! '' @ tail_num plane @ '' squawked '' @ squawk plane
                   else ''Plane Alert - '' @ plane_desc plane),
          description = (if owner plane \<noteq> '''' then ''Operated by **'' @ owner plane @ ''**''
                         else '''') @
                        [CHR 0x0A] @ ''[Track on ADS-B Exchange]('' @ adsbx_url plane @ '')'',
          color = (if is_emergency (squawk plane) then 0xff0000 else 0xf2e718),
          embed_fields =
            (if dict_get cfg ''DISCORD_FEEDER_NAME'' '''' \<noteq> ''''
             then [(''Feeder'', dict_get cfg ''DISCORD_FEEDER_NAME'' '''')] else []) @
            [(''ICAO'', icao plane),
             (''Tail Number'', ''['' @ tail_num plane @ '']('' @
                flightaware_link (icao plane) (tail_num plane) @ '')'')] @
            (if callsign plane \<noteq> '''' then [(''Callsign'', callsign plane)] else []) @
            (if dict_get (get_plane_info planedb (icao plane)) ''category'' '''' \<noteq> ''''
             then [(''Category'', dict_get (get_plane_info planedb (icao plane)) ''category'' '''')]
             else []) @
            (if dict_get (get_plane_info planedb (icao plane)) ''tag1'' '''' \<noteq> ''''
             then [(''Tag'', dict_get (get_plane_info planedb (icao plane)) ''tag1'' '''')]
             else []) @
            (if dict_get (get_plane_info planedb (icao plane)) ''tag2'' '''' \<noteq> ''''
             then [(''Tag'', dict_get (get_plane_info planedb (icao plane)) ''tag2'' '''')]
             else []) @
            (if dict_get (get_plane_info planedb (icao plane)) ''tag3'' '''' \<noteq> ''''
             then [(''Tag'', dict_get (get_plane_info planedb (icao plane)) ''tag3'' '''')]
             else []) @
            (if dict_get (get_plane_info planedb (icao plane)) ''link'' '''' \<noteq> ''''
             then [(''Link'', ''[Learn More]('' @
                     dict_get (get_plane_info planedb (icao plane)) ''link'' '''' @ '')'')]
             else [])\<rparr>"
  unfolding alert_embed_def Let_def field_if_set_upd and_then_Inr embed_field_if
  unfolding embed_field_upd embed_build_def
  by (simp split del: if_split cong: if_cong)

lemma flightaware_link_filter:
  "flightaware_link i t =
     ''https://flightaware.com/live/modes/'' @
     filter (\<lambda>c. c \<noteq> CHR '']'') (filter (\<lambda>c. c \<noteq> CHR ''['') (strip i)) @ ''/ident/'' @
     filter (\<lambda>c. c \<noteq> CHR '']'') (filter (\<lambda>c. c \<noteq> CHR ''['') (strip t)) @ ''/redirect''"
  by (simp add: flightaware_link_def replace_char_empty)

lemma example_alert_loaded: "alert_of_row example_alert_row = Inr example_alert"
  by (simp add: alert_of_row_long example_alert_row_def example_alert_def strip_def isspace_def)

lemma example_plane_loaded: "plane_of_row example_reference_row = Inr example_plane"
  by (simp add: plane_of_row_def example_reference_row_def example_plane_def getitem_def
      item_or_empty_def)

lemma example_planedb_loaded:
  "load_planefile [example_reference_row] = Inr [''A51316'' \<mapsto> example_plane]"
proof -
  have "plane_row_skipped example_reference_row = Inr False"
    by (simp add: plane_row_skipped_def example_reference_row_def getitem_def startswith_def)
  moreover have "dict_item example_plane ''icao'' = Inr ''A51316''"
    by (simp add: dict_item_def example_plane_def)
  ultimately show ?thesis
    by (simp add: load_planefile_def example_plane_loaded)
qed

lemma example_link:
  "flightaware_link ''A51316'' ''N426NA'' =
     ''https://flightaware.com/live/modes/A51316/ident/N426NA/redirect''"
  by (simp add: flightaware_link_filter strip_def isspace_def)

lemma blank_alert_loaded: "alert_of_row blank_alert_row = Inr blank_alert"
  by (simp add: alert_of_row_long blank_alert_row_def blank_alert_def strip_def isspace_def)

lemma blank_link:
  "flightaware_link '''' '''' = ''https://flightaware.com/live/modes//ident//redirect''"
  by (simp add: flightaware_link_filter strip_def)

lemma example_plane_fields:
  "dict_get example_plane ''category'' '''' = ''Distinctive''"
  "dict_get example_plane ''tag1'' '''' = ''Sce To Aux''"
  "dict_get example_plane ''tag2'' '''' = ''Airborne Science''"
  "dict_get example_plane ''tag3'' '''' = ''Wallops Flight Facility''"
  "dict_get example_plane ''link'' '''' = ''https://nasa.gov''"
  by (simp_all add: dict_get_def example_plane_def)

section \<open>Lemmas on the plane database\<close>

lemma plane_row_skipped_Nil: "plane_row_skipped [] = Inl IndexError"
  by (simp add: plane_row_skipped_def getitem_def)

lemma plane_row_skipped_Cons: "plane_row_skipped (f # fs) = Inr (startswith f ''#'')"
  by (simp add: plane_row_skipped_def getitem_def)

lemma plane_row_skipped_Inr:
  "plane_row_skipped row = Inr b \<Longrightarrow> row \<noteq> [] \<and> b = startswith (row ! 0) ''#''"
  by (cases row) (auto simp: plane_row_skipped_Nil plane_row_skipped_Cons)

lemma plane_of_row_short: "length row < 4 \<Longrightarrow> plane_of_row row = Inl IndexError"
  by (auto simp: plane_of_row_def getitem_def)

lemma plane_of_row_long:
  "4 \<le> length row \<Longrightarrow>
   plane_of_row row =
     Inr (map_of
       [(''icao'', row ! 0), (''tail_num'', row ! 1), (''owner'', row ! 2), (''type'', row ! 3),
        (''icao_type'', if 4 < length row then row ! 4 else ''''),
        (''authority'', if 5 < length row then row ! 5 else ''''),
        (''tag1'', if 6 < length row then row ! 6 else ''''),
        (''tag2'', if 7 < length row then row ! 7 else ''''),
        (''tag3'', if 8 < length row then row ! 8 else ''''),
        (''category'', if 9 < length row then row ! 9 else ''''),
        (''link'', if 10 < length row then row ! 10 else '''')])"
  by (auto simp: plane_of_row_def getitem_def item_or_empty_def)

lemma plane_of_row_Inr:
  "plane_of_row row = Inr p \<Longrightarrow> 4 \<le> length row \<and> dict_item p ''icao'' = Inr (row ! 0)"
proof (cases "4 \<le> length row")
  case True
  assume "plane_of_row row = Inr p"
  with True show ?thesis by (auto simp: plane_of_row_long dict_item_def)
next
  case False
  assume "plane_of_row row = Inr p"
  with False show ?thesis by (simp add: plane_of_row_short)
qed

text \<open>One turn of the loop, when the load as a whole succeeds.\<close>

lemma load_planefile_loop_Cons_Inr:
  assumes "load_planefile_loop (row # reader) db = Inr db'"
  shows "row \<noteq> [] \<and>
         (if startswith (row ! 0) ''#'' then load_planefile_loop reader db = Inr db'
          else \<exists>p. plane_of_row row = Inr p \<and> 4 \<le> length row \<and>
                 load_planefile_loop reader (db(row ! 0 \<mapsto> p)) = Inr db')"
proof -
  from assms obtain skip where s: "plane_row_skipped row = Inr skip"
    by (cases "plane_row_skipped row") auto
  note r = plane_row_skipped_Inr [OF s]
  show ?thesis
  proof (cases skip)
    case True
    with assms s r show ?thesis by simp
  next
    case False
    with assms s obtain p where p: "plane_of_row row = Inr p"
      by (cases "plane_of_row row") auto
    note k = plane_of_row_Inr [OF p]
    from assms s False p k have "load_planefile_loop reader (db(row ! 0 \<mapsto> p)) = Inr db'"
      by simp
    with False r p k show ?thesis by auto
  qed
qed

lemma load_planefile_loop_other_key:
  "load_planefile_loop reader db = Inr db' \<Longrightarrow>
   \<forall>q \<in> set reader. plane_row_skipped q = Inr True \<or> getitem q 0 \<noteq> Inr k \<Longrightarrow>
   db' k = db k"
proof (induction reader arbitrary: db)
  case Nil
  then show ?case by simp
next
  case (Cons row reader)
  note step = load_planefile_loop_Cons_Inr [OF Cons.prems(1)]
  from Cons.prems(2) have rest:
    "\<forall>q \<in> set reader. plane_row_skipped q = Inr True \<or> getitem q 0 \<noteq> Inr k"
    by simp
  show ?case
  proof (cases "startswith (row ! 0) ''#''")
    case True
    with step have "load_planefile_loop reader db = Inr db'" by simp
    from Cons.IH [OF this rest] show ?thesis .
  next
    case False
    with step obtain p where
      p: "load_planefile_loop reader (db(row ! 0 \<mapsto> p)) = Inr db'" and ne: "row \<noteq> []"
      by auto
    from ne False have "plane_row_skipped row = Inr False"
      by (cases row) (auto simp: plane_row_skipped_Cons)
    with Cons.prems(2) have "getitem row 0 \<noteq> Inr k" by auto
    with ne have "row ! 0 \<noteq> k" by (simp add: getitem_def)
    with Cons.IH [OF p rest] show ?thesis by simp
  qed
qed

lemma load_planefile_loop_append:
  "load_planefile_loop (xs @ ys) db = Inr db' \<Longrightarrow>
   \<exists>mid. load_planefile_loop xs db = Inr mid \<and> load_planefile_loop ys mid = Inr db'"
proof (induction xs arbitrary: db)
  case Nil
  then show ?case by simp
next
  case (Cons row xs)
  from Cons.prems have whole: "load_planefile_loop (row # (xs @ ys)) db = Inr db'" by simp
  note step = load_planefile_loop_Cons_Inr [OF whole]
  show ?case
  proof (cases "startswith (row ! 0) ''#''")
    case True
    with step have "load_planefile_loop (xs @ ys) db = Inr db'" by simp
    from Cons.IH [OF this] obtain mid where
      "load_planefile_loop xs db = Inr mid" "load_planefile_loop ys mid = Inr db'" by blast
    moreover from step True have "plane_row_skipped row = Inr True"
      by (cases row) (auto simp: plane_row_skipped_Cons)
    ultimately show ?thesis by auto
  next
    case False
    with step obtain p where p: "plane_of_row row = Inr p"
      and rest: "load_planefile_loop (xs @ ys) (db(row ! 0 \<mapsto> p)) = Inr db'"
      by auto
    from Cons.IH [OF rest] obtain mid where
      mid: "load_planefile_loop xs (db(row ! 0 \<mapsto> p)) = Inr mid"
           "load_planefile_loop ys mid = Inr db'" by blast
    from step False have "plane_row_skipped row = Inr False"
      by (cases row) (auto simp: plane_row_skipped_Cons)
    with p plane_of_row_Inr [OF p] mid show ?thesis by auto
  qed
qed

lemma load_planefile_loop_last_row:
  assumes "load_planefile_loop (pre @ row # post) db = Inr db'"
    and "plane_row_skipped row = Inr False"
    and "\<forall>q \<in> set post. plane_row_skipped q = Inr True \<or> getitem q 0 \<noteq> getitem row 0"
  shows "\<exists>p. plane_of_row row = Inr p \<and> 4 \<le> length row \<and> db' (row ! 0) = Some p"
proof -
  from load_planefile_loop_append [OF assms(1)] obtain mid where
    "load_planefile_loop (row # post) mid = Inr db'" by blast
  note step = load_planefile_loop_Cons_Inr [OF this]
  from plane_row_skipped_Inr [OF assms(2)] have ne: "row \<noteq> []"
    and nc: "\<not> startswith (row ! 0) ''#''" by auto
  with step obtain p where p: "plane_of_row row = Inr p" "4 \<le> length row"
    and rest: "load_planefile_loop post (mid(row ! 0 \<mapsto> p)) = Inr db'"
    by auto
  from ne have "getitem row 0 = Inr (row ! 0)" by (simp add: getitem_def)
  with assms(3) have
    "\<forall>q \<in> set post. plane_row_skipped q = Inr True \<or> getitem q 0 \<noteq> Inr (row ! 0)"
    by simp
  from load_planefile_loop_other_key [OF rest this] have "db' (row ! 0) = Some p" by simp
  with p show ?thesis by blast
qed

lemma load_planefile_loop_icao_field:
  "load_planefile_loop reader db = Inr db' \<Longrightarrow>
   \<forall>k p. db k = Some p \<longrightarrow> p ''icao'' = Some k \<Longrightarrow>
   db' k = Some p \<Longrightarrow> p ''icao'' = Some k"
proof (induction reader arbitrary: db)
  case Nil
  then show ?case by simp
next
  case (Cons row reader)
  note step = load_planefile_loop_Cons_Inr [OF Cons.prems(1)]
  show ?case
  proof (cases "startswith (row ! 0) ''#''")
    case True
    with step have "load_planefile_loop reader db = Inr db'" by simp
    from Cons.IH [OF this Cons.prems(2) Cons.prems(3)] show ?thesis .
  next
    case False
    with step obtain q where q: "plane_of_row row = Inr q"
      and rest: "load_planefile_loop reader (db(row ! 0 \<mapsto> q)) = Inr db'"
      by auto
    from plane_of_row_Inr [OF q] have "q ''icao'' = Some (row ! 0)"
      by (auto simp: dict_item_def split: option.splits)
    with Cons.prems(2) have
      "\<forall>k p. (db(row ! 0 \<mapsto> q)) k = Some p \<longrightarrow> p ''icao'' = Some k"
      by auto
    from Cons.IH [OF rest this Cons.prems(3)] show ?thesis .
  qed
qed

lemma load_planefile_loop_dom_mono:
  "load_planefile_loop reader db = Inr db' \<Longrightarrow> k \<in> dom db \<Longrightarrow> k \<in> dom db'"
proof (induction reader arbitrary: db)
  case Nil
  then show ?case by simp
next
  case (Cons row reader)
  note step = load_planefile_loop_Cons_Inr [OF Cons.prems(1)]
  show ?case
  proof (cases "startswith (row ! 0) ''#''")
    case True
    with step have "load_planefile_loop reader db = Inr db'" by simp
    from Cons.IH [OF this Cons.prems(2)] show ?thesis .
  next
    case False
    with step obtain q where
      rest: "load_planefile_loop reader (db(row ! 0 \<mapsto> q)) = Inr db'"
      by auto
    from Cons.prems(2) have "k \<in> dom (db(row ! 0 \<mapsto> q))" by auto
    from Cons.IH [OF rest this] show ?thesis .
  qed
qed

lemma load_planefile_loop_stored:
  "load_planefile_loop reader db = Inr db' \<Longrightarrow> row \<in> set reader \<Longrightarrow>
   plane_row_skipped row = Inr False \<Longrightarrow> row ! 0 \<in> dom db'"
proof (induction reader arbitrary: db)
  case Nil
  then show ?case by simp
next
  case (Cons r reader)
  note step = load_planefile_loop_Cons_Inr [OF Cons.prems(1)]
  show ?case
  proof (cases "row = r")
    case True
    from plane_row_skipped_Inr [OF Cons.prems(3)] True step obtain q where
      rest: "load_planefile_loop reader (db(row ! 0 \<mapsto> q)) = Inr db'"
      by auto
    have "row ! 0 \<in> dom (db(row ! 0 \<mapsto> q))" by simp
    from load_planefile_loop_dom_mono [OF rest this] show ?thesis .
  next
    case False
    with Cons.prems(2) have mem: "row \<in> set reader" by simp
    show ?thesis
    proof (cases "startswith (r ! 0) ''#''")
      case True
      with step have "load_planefile_loop reader db = Inr db'" by simp
      from Cons.IH [OF this mem Cons.prems(3)] show ?thesis .
    next
      case False
      with step obtain q where
        rest: "load_planefile_loop reader (db(r ! 0 \<mapsto> q)) = Inr db'"
        by auto
      from Cons.IH [OF rest mem Cons.prems(3)] show ?thesis .
    qed
  qed
qed

lemma load_alerts_member:
  assumes "load_alerts reader = Inr alerts" and "a \<in> set alerts"
  shows "\<exists>row \<in> set reader. 10 \<le> length row \<and> alert_of_row row = Inr a"
proof -
  from load_alerts_loop_spec [of reader "[]"] assms(1) have
    "map Inr alerts = map alert_of_row (filter spec_valid_alert_row reader)"
    by (auto simp: load_alerts_def)
  moreover from assms(2) have "Inr a \<in> set (map Inr alerts :: (py_error + alert) list)"
    by simp
  ultimately have "Inr a \<in> set (map alert_of_row (filter spec_valid_alert_row reader))"
    by simp
  then obtain row where "row \<in> set reader" "spec_valid_alert_row row" "alert_of_row row = Inr a"
    by auto
  with spec_valid_alert_row_length show ?thesis by auto
qed

lemma loaded_icao_stripped:
  assumes "load_alerts reader = Inr alerts" and "a \<in> set alerts"
  shows "strip (icao a) = icao a"
proof -
  from load_alerts_member [OF assms] obtain row where
    "10 \<le> length row" "alert_of_row row = Inr a" by blast
  then have "icao a = strip (row ! 0)" by (auto simp: alert_of_row_long)
  then show ?thesis by (simp add: strip_idem)
qed

lemma load_planefile_loop_member:
  "load_planefile_loop reader db = Inr db' \<Longrightarrow> row \<in> set reader \<Longrightarrow>
   plane_row_skipped row = Inr False \<Longrightarrow>
   \<exists>p. plane_of_row row = Inr p \<and> 4 \<le> length row \<and> p ''icao'' = Some (row ! 0)"
proof -
  assume l: "load_planefile_loop reader db = Inr db'" and m: "row \<in> set reader"
    and s: "plane_row_skipped row = Inr False"
  from m obtain pre post where "reader = pre @ row # post"
    by (auto dest: split_list)
  with l load_planefile_loop_append [of pre "row # post" db db'] obtain mid where
    "load_planefile_loop (row # post) mid = Inr db'" by auto
  note step = load_planefile_loop_Cons_Inr [OF this]
  from plane_row_skipped_Inr [OF s] step obtain p where
    p: "plane_of_row row = Inr p" "4 \<le> length row" by auto
  from plane_of_row_Inr [OF p(1)] have "p ''icao'' = Some (row ! 0)"
    by (auto simp: dict_item_def split: option.splits)
  with p show ?thesis by blast
qed

lemma load_planefile_loop_total:
  "\<forall>row \<in> set reader. row \<noteq> [] \<and> (startswith (row ! 0) ''#'' \<or> 4 \<le> length row) \<Longrightarrow>
   \<exists>db'. load_planefile_loop reader db = Inr db'"
proof (induction reader arbitrary: db)
  case Nil
  then show ?case by simp
next
  case (Cons row reader)
  then obtain f fs where row: "row = f # fs" by (cases row) auto
  show ?case
  proof (cases "startswith f ''#''")
    case True
    with Cons row show ?thesis by (simp add: plane_row_skipped_Cons)
  next
    case False
    with Cons.prems row have len: "4 \<le> length row" by auto
    then obtain p where p: "plane_of_row row = Inr p" by (simp add: plane_of_row_long)
    from plane_of_row_Inr [OF p] have "dict_item p ''icao'' = Inr (row ! 0)" by simp
    moreover from Cons.prems have
      "\<forall>r \<in> set reader. r \<noteq> [] \<and> (startswith (r ! 0) ''#'' \<or> 4 \<le> length r)"
      by simp
    from Cons.IH [OF this, of "db(row ! 0 \<mapsto> p)"] obtain db' where
      "load_planefile_loop reader (db(row ! 0 \<mapsto> p)) = Inr db'" by blast
    ultimately show ?thesis using False row p
      by (simp add: plane_row_skipped_Cons)
  qed
qed

lemma load_planefile_short_row_raises:
  "load_planefile [[''A51316'', ''N426NA'']] = Inl IndexError"
  by (simp add: load_planefile_def plane_row_skipped_Cons startswith_def plane_of_row_short)

lemma duplicate_plane_loaded: "plane_of_row duplicate_reference_row = Inr duplicate_plane"
  by (simp add: plane_of_row_long duplicate_reference_row_def duplicate_plane_def)

lemma example_rows_not_skipped:
  "plane_row_skipped example_reference_row = Inr False"
  "plane_row_skipped duplicate_reference_row = Inr False"
  by (simp_all add: example_reference_row_def duplicate_reference_row_def
      plane_row_skipped_Cons startswith_def)

lemma example_rows_key:
  "dict_item example_plane ''icao'' = Inr ''A51316''"
  "dict_item duplicate_plane ''icao'' = Inr ''A51316''"
  by (simp_all add: dict_item_def example_plane_def duplicate_plane_def)

lemma duplicate_rows_loaded:
  "load_planefile [example_reference_row, duplicate_reference_row] =
     Inr ([''A51316'' \<mapsto> example_plane](''A51316'' \<mapsto> duplicate_plane))"
  by (simp add: load_planefile_def example_rows_not_skipped example_plane_loaded
      duplicate_plane_loaded example_rows_key)

lemma load_planefile_loop_found:
  "load_planefile_loop reader db = Inr db' \<Longrightarrow> db' k = Some p \<Longrightarrow>
   db k = Some p \<or>
   (\<exists>q \<in> set reader. plane_row_skipped q = Inr False \<and> q ! 0 = k \<and> plane_of_row q = Inr p)"
proof (induction reader arbitrary: db)
  case Nil
  then show ?case by simp
next
  case (Cons row reader)
  note step = load_planefile_loop_Cons_Inr [OF Cons.prems(1)]
  show ?case
  proof (cases "startswith (row ! 0) ''#''")
    case True
    with step have "load_planefile_loop reader db = Inr db'" by simp
    from Cons.IH [OF this Cons.prems(2)] show ?thesis by auto
  next
    case False
    with step obtain q where q: "plane_of_row row = Inr q" and ne: "row \<noteq> []"
      and rest: "load_planefile_loop reader (db(row ! 0 \<mapsto> q)) = Inr db'"
      by auto
    from ne False have s: "plane_row_skipped row = Inr False"
      by (cases row) (auto simp: plane_row_skipped_Cons)
    from Cons.IH [OF rest Cons.prems(2)] consider
      "(db(row ! 0 \<mapsto> q)) k = Some p"
      | "\<exists>r \<in> set reader. plane_row_skipped r = Inr False \<and> r ! 0 = k \<and> plane_of_row r = Inr p"
      by blast
    then show ?thesis
    proof cases
      case 1
      show ?thesis
      proof (cases "row ! 0 = k")
        case True
        with 1 have "q = p" by simp
        with q s True show ?thesis by auto
      next
        case False
        with 1 show ?thesis by simp
      qed
    next
      case 2
      then show ?thesis by auto
    qed
  qed
qed

lemma plane_of_row_not_empty: "plane_of_row row = Inr p \<Longrightarrow> p \<noteq> Map.empty"
proof
  assume "plane_of_row row = Inr p" and e: "p = Map.empty"
  from plane_of_row_Inr [OF this(1)] have "dict_item p ''icao'' = Inr (row ! 0)" by simp
  with e show False by (simp add: dict_item_def)
qed

text \<open>The lookup after a load: which keys it finds, and what it returns for them.\<close>

lemma get_plane_info_loaded:
  assumes "load_planefile reader = Inr planedb"
  shows "(get_plane_info planedb k \<noteq> Map.empty) =
           (\<exists>q \<in> set reader. plane_row_skipped q = Inr False \<and> q ! 0 = k)"
    and "get_plane_info planedb k \<noteq> Map.empty \<Longrightarrow>
           \<exists>q \<in> set reader. plane_row_skipped q = Inr False \<and> q ! 0 = k \<and>
             plane_of_row q = Inr (get_plane_info planedb k)"
    and "get_plane_info planedb k \<noteq> Map.empty \<Longrightarrow> get_plane_info planedb k ''icao'' = Some k"
proof -
  from assms have l: "load_planefile_loop reader Map.empty = Inr planedb"
    by (simp add: load_planefile_def)
  have found: "\<exists>q \<in> set reader. plane_row_skipped q = Inr False \<and> q ! 0 = k \<and>
      plane_of_row q = Inr (get_plane_info planedb k)"
    if "get_plane_info planedb k \<noteq> Map.empty"
  proof -
    from that obtain p where p: "planedb k = Some p"
      by (cases "planedb k") (auto simp: get_plane_info_def dict_get_def)
    then have g: "get_plane_info planedb k = p"
      by (simp add: get_plane_info_def dict_get_def)
    from load_planefile_loop_found [OF l p] g show ?thesis by simp
  qed
  then show "get_plane_info planedb k \<noteq> Map.empty \<Longrightarrow>
      \<exists>q \<in> set reader. plane_row_skipped q = Inr False \<and> q ! 0 = k \<and>
        plane_of_row q = Inr (get_plane_info planedb k)" .
  show "get_plane_info planedb k \<noteq> Map.empty \<Longrightarrow> get_plane_info planedb k ''icao'' = Some k"
  proof -
    assume "get_plane_info planedb k \<noteq> Map.empty"
    from found [OF this] obtain q where "q ! 0 = k"
      "plane_of_row q = Inr (get_plane_info planedb k)" by blast
    with plane_of_row_Inr [of q "get_plane_info planedb k"] show ?thesis
      by (auto simp: dict_item_def split: option.splits)
  qed
  show "(get_plane_info planedb k \<noteq> Map.empty) =
      (\<exists>q \<in> set reader. plane_row_skipped q = Inr False \<and> q ! 0 = k)"
  proof
    assume "get_plane_info planedb k \<noteq> Map.empty"
    from found [OF this] show "\<exists>q \<in> set reader. plane_row_skipped q = Inr False \<and> q ! 0 = k"
      by blast
  next
    assume "\<exists>q \<in> set reader. plane_row_skipped q = Inr False \<and> q ! 0 = k"
    then obtain q where q: "q \<in> set reader" "plane_row_skipped q = Inr False" "q ! 0 = k"
      by blast
    from load_planefile_loop_stored [OF l q(1) q(2)] q(3) obtain p where p: "planedb k = Some p"
      by auto
    from load_planefile_loop_found [OF l p] obtain r where "plane_of_row r = Inr p"
      by auto
    from plane_of_row_not_empty [OF this] p show "get_plane_info planedb k \<noteq> Map.empty"
      by (simp add: get_plane_info_def dict_get_def)
  qed
qed

section \<open>Lemmas on the processing loop\<close>

lemma process_alerts_prefix:
  "process_alerts send planedb cfg alerts w handed = (r, w', handed') \<Longrightarrow>
   \<exists>n. n \<le> length alerts \<and>
       map Inr handed' = map Inr handed @ map (alert_embed cfg planedb) (take n alerts) \<and>
       (case r of None \<Rightarrow> n = length alerts
        | Some e \<Rightarrow> 0 < n \<and> handed' \<noteq> [] \<and>
            (\<exists>w0 w1. send w0 cfg ''PA'' (last handed') = (Some e, w1)))"
proof (induction alerts arbitrary: w handed)
  case Nil
  then show ?case by auto
next
  case (Cons plane alerts)
  obtain em where em: "alert_embed cfg planedb plane = Inr em"
    by (simp add: alert_embed_total)
  obtain ro w1 where snd: "send w cfg ''PA'' em = (ro, w1)"
    by (cases "send w cfg ''PA'' em") auto
  show ?case
  proof (cases ro)
    case (Some e)
    with Cons.prems em snd have "r = Some e" "handed' = handed @ [em]" by auto
    with em snd Some have
      "Suc 0 \<le> length (plane # alerts) \<and>
       map Inr handed' =
         map Inr handed @ map (alert_embed cfg planedb) (take (Suc 0) (plane # alerts)) \<and>
       (case r of None \<Rightarrow> Suc 0 = length (plane # alerts)
        | Some e \<Rightarrow> 0 < Suc 0 \<and> handed' \<noteq> [] \<and>
            (\<exists>w0 w1. send w0 cfg ''PA'' (last handed') = (Some e, w1)))"
      by auto
    then show ?thesis by blast
  next
    case None
    with Cons.prems em snd have
      "process_alerts send planedb cfg alerts w1 (handed @ [em]) = (r, w', handed')"
      by simp
    from Cons.IH [OF this] obtain n where n: "n \<le> length alerts"
      "map Inr handed' =
         map Inr (handed @ [em]) @ map (alert_embed cfg planedb) (take n alerts)"
      "case r of None \<Rightarrow> n = length alerts
        | Some e \<Rightarrow> 0 < n \<and> handed' \<noteq> [] \<and>
            (\<exists>w0 w1. send w0 cfg ''PA'' (last handed') = (Some e, w1))"
      by blast
    from n em have
      "Suc n \<le> length (plane # alerts) \<and>
       map Inr handed' =
         map Inr handed @ map (alert_embed cfg planedb) (take (Suc n) (plane # alerts)) \<and>
       (case r of None \<Rightarrow> Suc n = length (plane # alerts)
        | Some e \<Rightarrow> 0 < Suc n \<and> handed' \<noteq> [] \<and>
            (\<exists>w0 w1. send w0 cfg ''PA'' (last handed') = (Some e, w1)))"
      by (auto split: option.splits)
    then show ?thesis by blast
  qed
qed

lemma process_alerts_append:
  "process_alerts send planedb cfg (xs @ ys) w handed =
     (case process_alerts send planedb cfg xs w handed of
        (None, w1, handed1) \<Rightarrow> process_alerts send planedb cfg ys w1 handed1
      | (Some e, w1, handed1) \<Rightarrow> (Some e, w1, handed1))"
proof (induction xs arbitrary: w handed)
  case Nil
  then show ?case by simp
next
  case (Cons plane xs)
  obtain em where em: "alert_embed cfg planedb plane = Inr em"
    by (simp add: alert_embed_total)
  obtain ro w1 where snd: "send w cfg ''PA'' em = (ro, w1)"
    by (cases "send w cfg ''PA'' em") auto
  show ?case
  proof (cases ro)
    case None
    with em snd Cons.IH [of w1 "handed @ [em]"] show ?thesis by simp
  next
    case (Some e)
    with em snd show ?thesis by simp
  qed
qed

lemma process_alerts_step:
  assumes "process_alerts send planedb cfg pre w handed = (None, w1, hp)"
    and "alert_embed cfg planedb plane = Inr em"
  shows "send w1 cfg ''PA'' em = (Some e, w2) \<Longrightarrow>
           process_alerts send planedb cfg (pre @ plane # post) w handed = (Some e, w2, hp @ [em])"
    and "send w1 cfg ''PA'' em = (None, w2) \<Longrightarrow>
           process_alerts send planedb cfg (pre @ plane # post) w handed =
             process_alerts send planedb cfg post w2 (hp @ [em])"
  using assms by (simp_all add: process_alerts_append)

lemma process_alerts_None:
  assumes "process_alerts send planedb cfg alerts w handed = (None, w', handed')"
  shows "map Inr handed' = map Inr handed @ map (alert_embed cfg planedb) alerts"
  using process_alerts_prefix [OF assms] by auto

lemma process_alerts_Some:
  "process_alerts send planedb cfg alerts w handed = (Some e, w', handed') \<Longrightarrow>
   \<exists>pre plane post w1 hp em.
     alerts = pre @ plane # post \<and>
     process_alerts send planedb cfg pre w handed = (None, w1, hp) \<and>
     alert_embed cfg planedb plane = Inr em \<and>
     send w1 cfg ''PA'' em = (Some e, w') \<and> handed' = hp @ [em]"
proof (induction alerts arbitrary: w handed)
  case Nil
  then show ?case by simp
next
  case (Cons a alerts)
  obtain em where em: "alert_embed cfg planedb a = Inr em"
    by (simp add: alert_embed_total)
  obtain ro w1 where snd: "send w cfg ''PA'' em = (ro, w1)"
    by (cases "send w cfg ''PA'' em") auto
  show ?case
  proof (cases ro)
    case (Some e')
    with Cons.prems em snd have "e' = e" "w1 = w'" "handed' = handed @ [em]" by auto
    with em snd Some have
      "a # alerts = [] @ a # alerts \<and>
       process_alerts send planedb cfg [] w handed = (None, w, handed) \<and>
       alert_embed cfg planedb a = Inr em \<and>
       send w cfg ''PA'' em = (Some e, w') \<and> handed' = handed @ [em]"
      by simp
    then show ?thesis by blast
  next
    case None
    with Cons.prems em snd have
      "process_alerts send planedb cfg alerts w1 (handed @ [em]) = (Some e, w', handed')"
      by simp
    from Cons.IH [OF this] obtain pre plane post w2 hp em' where
      s: "alerts = pre @ plane # post"
         "process_alerts send planedb cfg pre w1 (handed @ [em]) = (None, w2, hp)"
         "alert_embed cfg planedb plane = Inr em'"
         "send w2 cfg ''PA'' em' = (Some e, w')" "handed' = hp @ [em']"
      by blast
    from s(2) em snd None have
      "process_alerts send planedb cfg (a # pre) w handed = (None, w2, hp)"
      by simp
    with s have
      "a # alerts = (a # pre) @ plane # post \<and>
       process_alerts send planedb cfg (a # pre) w handed = (None, w2, hp) \<and>
       alert_embed cfg planedb plane = Inr em' \<and>
       send w2 cfg ''PA'' em' = (Some e, w') \<and> handed' = hp @ [em']"
      by simp
    then show ?thesis by blast
  qed
qed

lemma flightaware_link_py37_bracket:
  "flightaware_link_py37 ''A1B2C3'' ''N123AB'' =
     ''https://flightaware.com/live/modes/A1B2C3/ident/N123AB]/redirect''"
  by (simp add: flightaware_link_py37_def)

section \<open>The claims\<close>

text \<open>
  Claim C1, as stated, fails: it says that a pair is appended only if the underlying value
  is non-empty. The loader accepts a row whose first two fields are blank, and the
  payload for it has the pairs \<open>ICAO\<close> and \<open>Tail Number\<close> although both identifiers are
  empty.
\<close>

theorem fields_include_empty_icao_and_tail:
  "\<exists>a e. load_alerts [blank_alert_row] = Inr [a] \<and> icao a = '''' \<and> tail_num a = '''' \<and>
       alert_embed Map.empty Map.empty a = Inr e \<and>
       embed_fields e =
         [(''ICAO'', ''''),
          (''Tail Number'', ''[](https://flightaware.com/live/modes//ident//redirect)'')]"
proof -
  have "alert_row_skipped blank_alert_row = Inr False"
    by (simp add: alert_row_skipped_def blank_alert_row_def getitem_def startswith_def)
  then have "load_alerts [blank_alert_row] = Inr [blank_alert]"
    by (simp add: load_alerts_def blank_alert_loaded)
  moreover have "alert_embed Map.empty Map.empty blank_alert =
      Inr \<lparr>title = ''Plane Alert - Unknown'',
           description = CHR 0x0A # ''[Track on ADS-B Exchange](https://adsbexchange.com/x)'',
           color = 0xf2e718,
           embed_fields = [(''ICAO'', ''''),
             (''Tail Number'', ''[](https://flightaware.com/live/modes//ident//redirect)'')]\<rparr>"
    by (simp add: alert_embed_total blank_alert_def blank_link is_emergency_def dict_get_def
        get_plane_info_def)
  ultimately show ?thesis by (simp add: blank_alert_def)
qed

text \<open>
  Claim C1, amended. For every alert, configuration and database the payload is built
  without an exception, and its pairs are, in this order: \<open>Feeder\<close> if the configured
  feeder name is non-empty; \<open>ICAO\<close> and \<open>Tail Number\<close> (the tail number as a link to the
  tracking link), both always; \<open>Callsign\<close> if non-empty; \<open>Category\<close>, then \<open>Tag\<close> for each
  of \<open>tag1\<close>, \<open>tag2\<close>, \<open>tag3\<close>, each if that field of the database entry is non-empty; and
  \<open>Link\<close>, as a \<open>Learn More\<close> link, if the entry has one. The witness is the end-to-end
  scenario of the specification.
\<close>

theorem fields_in_fixed_order:
  "\<exists>e. alert_embed cfg planedb plane = Inr e \<and>
       embed_fields e =
         (if dict_get cfg ''DISCORD_FEEDER_NAME'' '''' \<noteq> ''''
          then [(''Feeder'', dict_get cfg ''DISCORD_FEEDER_NAME'' '''')] else []) @
         [(''ICAO'', icao plane),
          (''Tail Number'', ''['' @ tail_num plane @ '']('' @
             flightaware_link (icao plane) (tail_num plane) @ '')'')] @
         (if callsign plane \<noteq> '''' then [(''Callsign'', callsign plane)] else []) @
         (if dict_get (get_plane_info planedb (icao plane)) ''category'' '''' \<noteq> ''''
          then [(''Category'', dict_get (get_plane_info planedb (icao plane)) ''category'' '''')]
          else []) @
         (if dict_get (get_plane_info planedb (icao plane)) ''tag1'' '''' \<noteq> ''''
          then [(''Tag'', dict_get (get_plane_info planedb (icao plane)) ''tag1'' '''')]
          else []) @
         (if dict_get (get_plane_info planedb (icao plane)) ''tag2'' '''' \<noteq> ''''
          then [(''Tag'', dict_get (get_plane_info planedb (icao plane)) ''tag2'' '''')]
          else []) @
         (if dict_get (get_plane_info planedb (icao plane)) ''tag3'' '''' \<noteq> ''''
          then [(''Tag'', dict_get (get_plane_info planedb (icao plane)) ''tag3'' '''')]
          else []) @
         (if dict_get (get_plane_info planedb (icao plane)) ''link'' '''' \<noteq> ''''
          then [(''Link'', ''[Learn More]('' @
                  dict_get (get_plane_info planedb (icao plane)) ''link'' '''' @ '')'')]
          else [])"
  by (simp add: alert_embed_total split del: if_split cong: if_cong)

theorem fields_in_fixed_order_witness:
  "\<exists>e. alert_embed [''DISCORD_FEEDER_NAME'' \<mapsto> ''''] [''A51316'' \<mapsto> example_plane]
         example_alert = Inr e \<and>
       embed_fields e =
         [(''ICAO'', ''A51316''),
          (''Tail Number'',
           ''[N426NA](https://flightaware.com/live/modes/A51316/ident/N426NA/redirect)''),
          (''Callsign'', ''NASA1''),
          (''Category'', ''Distinctive''),
          (''Tag'', ''Sce To Aux''),
          (''Tag'', ''Airborne Science''),
          (''Tag'', ''Wallops Flight Facility''),
          (''Link'', ''[Learn More](https://nasa.gov)'')]"
proof -
  have i: "icao example_alert = ''A51316''" "tail_num example_alert = ''N426NA''"
    "callsign example_alert = ''NASA1''"
    by (simp_all add: example_alert_def)
  have g: "get_plane_info [''A51316'' \<mapsto> example_plane] ''A51316'' = example_plane"
    by (simp add: get_plane_info_def dict_get_def)
  have c: "dict_get [''DISCORD_FEEDER_NAME'' \<mapsto> ''''] ''DISCORD_FEEDER_NAME'' '''' = ''''"
    by (simp add: dict_get_def)
  from fields_in_fixed_order
    [of "[''DISCORD_FEEDER_NAME'' \<mapsto> '''']" "[''A51316'' \<mapsto> example_plane]" example_alert]
  show ?thesis
    unfolding i g c example_plane_fields example_link by simp
qed

text \<open>
  Claim C2. A squawk is an emergency exactly when it is one of the strings \<open>7700\<close>,
  \<open>7600\<close>, \<open>7500\<close> (so \<open>1200\<close> and the empty string are not). The payload of an
  emergency has the title naming the tail number and the squawk and the colour
  \<open>0xff0000\<close>; every other payload has the title naming the plane description and the
  colour \<open>0xf2e718\<close>.
\<close>

theorem emergency_title_color:
  "is_emergency sq = (sq = ''7700'' \<or> sq = ''7600'' \<or> sq = ''7500'') \<and>
   is_emergency ''7700'' \<and> is_emergency ''7500'' \<and>
   \<not> is_emergency ''1200'' \<and> \<not> is_emergency '''' \<and>
   (\<exists>e. alert_embed cfg planedb plane = Inr e \<and>
        title e = (if is_emergency (squawk plane)
                   then ''Air Emergency! '' @ tail_num plane @ '' squawked '' @ squawk plane
                   else ''Plane Alert - '' @ plane_desc plane) \<and>
        color e = (if is_emergency (squawk plane) then 0xff0000 else 0xf2e718))"
proof -
  have "is_emergency sq = (sq = ''7700'' \<or> sq = ''7600'' \<or> sq = ''7500'')" for sq
    by (simp add: is_emergency_def)
  then show ?thesis
    by (simp add: alert_embed_total split del: if_split cong: if_cong)
qed

theorem emergency_title_color_witness:
  "\<exists>e. alert_embed Map.empty [''A51316'' \<mapsto> example_plane]
         (example_alert\<lparr>squawk := ''7500''\<rparr>) = Inr e \<and>
       title e = ''Air Emergency! N426NA squawked 7500'' \<and> color e = 0xff0000"
  using emergency_title_color
    [of "''7500''" Map.empty "[''A51316'' \<mapsto> example_plane]" "example_alert\<lparr>squawk := ''7500''\<rparr>"]
  by (auto simp: example_alert_def is_emergency_def)

text \<open>
  Claim C3. Loading an alert feed never raises. The records returned are those of the
  rows that have at least 10 fields and whose first field does not start with \<open>#\<close>,
  each built in full, in the order of the file, and there are as many records as such
  rows.
\<close>

theorem load_alerts_valid_rows_in_order:
  "\<exists>alerts. load_alerts reader = Inr alerts \<and>
       map Inr alerts = map alert_of_row (filter spec_valid_alert_row reader) \<and>
       length alerts = length (filter spec_valid_alert_row reader)"
proof -
  from load_alerts_loop_spec [of reader "[]"] obtain new where
    new: "load_alerts reader = Inr new"
         "map Inr new = map alert_of_row (filter spec_valid_alert_row reader)"
    by (auto simp: load_alerts_def)
  from new(2) have "length (map Inr new :: (py_error + alert) list) =
      length (map alert_of_row (filter spec_valid_alert_row reader))"
    by simp
  then have "length new = length (filter spec_valid_alert_row reader)"
    by simp
  with new show ?thesis by blast
qed

theorem load_alerts_valid_rows_in_order_witness:
  "load_alerts [[''# ICAO'', ''TailNr''], example_alert_row, [], [''A51316'', ''N426NA''],
                blank_alert_row] = Inr [example_alert, blank_alert]"
proof -
  let ?reader = "[[''# ICAO'', ''TailNr''], example_alert_row, [], [''A51316'', ''N426NA''],
                  blank_alert_row]"
  have "filter spec_valid_alert_row ?reader = [example_alert_row, blank_alert_row]"
    by (simp add: spec_valid_alert_row_def example_alert_row_def blank_alert_row_def
        startswith_def)
  with load_alerts_valid_rows_in_order [of ?reader] show ?thesis
    by (auto simp: example_alert_loaded blank_alert_loaded)
qed

text \<open>
  Claim C4, as stated, fails for a row that is followed by another row of the same
  \<open>icao\<close>: the lookup returns the later row's entry, whose fields do not match the
  earlier row.
\<close>

theorem lookup_returns_later_duplicate:
  "\<exists>planedb p.
      load_planefile [example_reference_row, duplicate_reference_row] = Inr planedb \<and>
      plane_of_row example_reference_row = Inr p \<and>
      dict_get p ''tail_num'' [] = ''N426NA'' \<and>
      dict_get (get_plane_info planedb (example_reference_row ! 0)) ''tail_num'' [] = ''N999ZZ''"
proof -
  have "dict_get example_plane ''tail_num'' [] = ''N426NA''"
    by (simp add: dict_get_def example_plane_def)
  moreover have "example_reference_row ! 0 = ''A51316''"
    by (simp add: example_reference_row_def)
  moreover have "dict_get duplicate_plane ''tail_num'' [] = ''N999ZZ''"
    by (simp add: dict_get_def duplicate_plane_def)
  moreover have
    "get_plane_info ([''A51316'' \<mapsto> example_plane](''A51316'' \<mapsto> duplicate_plane)) ''A51316'' =
       duplicate_plane"
    by (simp add: get_plane_info_def dict_get_def)
  ultimately show ?thesis
    by (simp add: duplicate_rows_loaded example_plane_loaded)
qed

text \<open>
  Claim C4, amended. After a load that succeeded, for every row that is not skipped and
  that no later row which is not skipped shares its first field with, looking up its first
  field returns the entry built from that row: its first four fields, and the fields at
  index 4 to 10 where the row has them, the empty string where it does not. Looking up
  a key that is the first field of no loaded row returns the empty dictionary, every
  field of which reads as the empty string.
\<close>

theorem lookup_last_row_or_sentinel:
  assumes "load_planefile reader = Inr planedb"
  shows
    "(reader = pre @ row # post \<and> plane_row_skipped row = Inr False \<and>
      (\<forall>q \<in> set post. plane_row_skipped q = Inr True \<or> getitem q 0 \<noteq> getitem row 0) \<longrightarrow>
        plane_of_row row = Inr (get_plane_info planedb (row ! 0)) \<and>
        get_plane_info planedb (row ! 0) =
          map_of
            [(''icao'', row ! 0), (''tail_num'', row ! 1), (''owner'', row ! 2),
             (''type'', row ! 3),
             (''icao_type'', if 4 < length row then row ! 4 else []),
             (''authority'', if 5 < length row then row ! 5 else []),
             (''tag1'', if 6 < length row then row ! 6 else []),
             (''tag2'', if 7 < length row then row ! 7 else []),
             (''tag3'', if 8 < length row then row ! 8 else []),
             (''category'', if 9 < length row then row ! 9 else []),
             (''link'', if 10 < length row then row ! 10 else [])]) \<and>
     ((\<forall>q \<in> set reader. plane_row_skipped q = Inr True \<or> getitem q 0 \<noteq> Inr key) \<longrightarrow>
        get_plane_info planedb key = Map.empty \<and>
        dict_get (get_plane_info planedb key) field [] = [])"
proof (intro conjI impI)
  let ?m = "map_of
            [(''icao'', row ! 0), (''tail_num'', row ! 1), (''owner'', row ! 2),
             (''type'', row ! 3),
             (''icao_type'', if 4 < length row then row ! 4 else []),
             (''authority'', if 5 < length row then row ! 5 else []),
             (''tag1'', if 6 < length row then row ! 6 else []),
             (''tag2'', if 7 < length row then row ! 7 else []),
             (''tag3'', if 8 < length row then row ! 8 else []),
             (''category'', if 9 < length row then row ! 9 else []),
             (''link'', if 10 < length row then row ! 10 else [])]"
  assume a: "reader = pre @ row # post \<and> plane_row_skipped row = Inr False \<and>
      (\<forall>q \<in> set post. plane_row_skipped q = Inr True \<or> getitem q 0 \<noteq> getitem row 0)"
  with assms have "load_planefile_loop (pre @ row # post) Map.empty = Inr planedb"
    by (simp add: load_planefile_def)
  from load_planefile_loop_last_row [OF this] a obtain p where
    p: "plane_of_row row = Inr p" "4 \<le> length row" "planedb (row ! 0) = Some p"
    by blast
  from p(3) have g: "get_plane_info planedb (row ! 0) = p"
    by (simp add: get_plane_info_def dict_get_def)
  with p(1) show "plane_of_row row = Inr (get_plane_info planedb (row ! 0))" by simp
  have "Inr p = (Inr ?m :: py_error + plane)"
    by (rule trans [OF p(1) [symmetric] plane_of_row_long [OF p(2)]])
  then have "p = ?m" by (simp only: sum.inject)
  with g show "get_plane_info planedb (row ! 0) = ?m" by (simp only:)
next
  assume a: "\<forall>q \<in> set reader. plane_row_skipped q = Inr True \<or> getitem q 0 \<noteq> Inr key"
  from assms have "load_planefile_loop reader Map.empty = Inr planedb"
    by (simp add: load_planefile_def)
  from load_planefile_loop_other_key [OF this a] have "planedb key = None" by simp
  then show g: "get_plane_info planedb key = Map.empty"
    by (simp add: get_plane_info_def dict_get_def)
  show "dict_get (get_plane_info planedb key) field [] = []"
    unfolding g by (simp add: dict_get_def)
qed

theorem lookup_last_row_or_sentinel_witness:
  "\<exists>planedb.
      load_planefile [example_reference_row, duplicate_reference_row] = Inr planedb \<and>
      dict_get (get_plane_info planedb ''A51316'') ''owner'' [] = ''Nobody'' \<and>
      dict_get (get_plane_info planedb ''A51316'') ''link'' [] = [] \<and>
      get_plane_info planedb ''a51316'' = Map.empty \<and>
      dict_get (get_plane_info planedb ''a51316'') ''owner'' [] = []"
proof -
  obtain planedb where
    l: "load_planefile [example_reference_row, duplicate_reference_row] = Inr planedb"
    using duplicate_rows_loaded by blast
  have s: "plane_row_skipped duplicate_reference_row = Inr False"
    by (rule example_rows_not_skipped)
  have absent: "\<forall>q \<in> set [example_reference_row, duplicate_reference_row].
      plane_row_skipped q = Inr True \<or> getitem q 0 \<noteq> Inr ''a51316''"
    by (simp add: example_reference_row_def duplicate_reference_row_def getitem_def)
  note t = lookup_last_row_or_sentinel
    [OF l, of "[example_reference_row]" duplicate_reference_row "[]" "''a51316''" "''owner''"]
  from t s have "plane_of_row duplicate_reference_row =
      Inr (get_plane_info planedb (duplicate_reference_row ! 0))"
    by simp
  moreover have "duplicate_reference_row ! 0 = ''A51316''"
    by (simp add: duplicate_reference_row_def)
  ultimately have "get_plane_info planedb ''A51316'' = duplicate_plane"
    by (simp add: duplicate_plane_loaded)
  then have "dict_get (get_plane_info planedb ''A51316'') ''owner'' [] = ''Nobody''"
    "dict_get (get_plane_info planedb ''A51316'') ''link'' [] = []"
    by (simp_all add: duplicate_plane_def dict_get_def)
  moreover from t [THEN conjunct2, THEN mp, OF absent] have
      "get_plane_info planedb ''a51316'' = Map.empty"
      "dict_get (get_plane_info planedb ''a51316'') ''owner'' [] = []"
    by blast+
  ultimately show ?thesis using l by blast
qed

text \<open>
  Claim C5. The tracking link interpolates the two identifiers after \<^verbatim>\<open>strip()\<close> and after
  the removal of every \<open>[\<close> and \<open>]\<close>: the two path segments are the stripped identifiers
  without their bracket characters, and hold no bracket. For the identifiers
  \<open>" [A1B2C3] "\<close> and \<open>"[N123AB]"\<close> the link holds exactly \<open>A1B2C3\<close> and \<open>N123AB\<close>.
\<close>

theorem flightaware_link_strips:
  "(\<exists>icao' tail'.
      flightaware_link i t =
        ''https://flightaware.com/live/modes/'' @ icao' @ ''/ident/'' @ tail' @ ''/redirect'' \<and>
      icao' = filter (\<lambda>c. c \<noteq> CHR ''['' \<and> c \<noteq> CHR '']'') (strip i) \<and>
      tail' = filter (\<lambda>c. c \<noteq> CHR ''['' \<and> c \<noteq> CHR '']'') (strip t) \<and>
      CHR ''['' \<notin> set icao' \<and> CHR '']'' \<notin> set icao' \<and>
      CHR ''['' \<notin> set tail' \<and> CHR '']'' \<notin> set tail') \<and>
   flightaware_link '' [A1B2C3] '' ''[N123AB]'' =
     ''https://flightaware.com/live/modes/A1B2C3/ident/N123AB/redirect''"
proof -
  have "filter (\<lambda>c. c \<noteq> CHR '']'') (filter (\<lambda>c. c \<noteq> CHR ''['') s) =
        filter (\<lambda>c. c \<noteq> CHR ''['' \<and> c \<noteq> CHR '']'') s" for s :: string
    by (induction s) auto
  then have "flightaware_link i t =
      ''https://flightaware.com/live/modes/'' @
      filter (\<lambda>c. c \<noteq> CHR ''['' \<and> c \<noteq> CHR '']'') (strip i) @ ''/ident/'' @
      filter (\<lambda>c. c \<noteq> CHR ''['' \<and> c \<noteq> CHR '']'') (strip t) @ ''/redirect''"
    by (simp add: flightaware_link_filter)
  moreover have "flightaware_link '' [A1B2C3] '' ''[N123AB]'' =
      ''https://flightaware.com/live/modes/A1B2C3/ident/N123AB/redirect''"
    by (simp add: flightaware_link_filter strip_def isspace_def)
  ultimately show ?thesis by simp
qed

theorem flightaware_link_strips_witness:
  "flightaware_link ''  [A51316]'' ''[N426NA] '' =
     ''https://flightaware.com/live/modes/A51316/ident/N426NA/redirect''"
  using flightaware_link_strips [of "''  [A51316]''" "''[N426NA] ''"]
  by (simp add: strip_def isspace_def)

text \<open>
  Claim C6, as stated, fails: for an alert with an empty owner the description is not
  exactly the tracking-link line, it starts with a newline character.
\<close>

theorem description_empty_owner_starts_with_newline:
  "\<exists>e. alert_embed Map.empty Map.empty blank_alert = Inr e \<and>
       owner blank_alert = '''' \<and>
       description e = CHR 0x0A # ''[Track on ADS-B Exchange](https://adsbexchange.com/x)'' \<and>
       description e \<noteq> ''[Track on ADS-B Exchange](https://adsbexchange.com/x)''"
  by (simp add: alert_embed_total blank_alert_def)

text \<open>
  Claim C6, amended. The description is the clause \<open>Operated by **OWNER**\<close> if the owner
  is non-empty and nothing otherwise, followed in both cases by a newline character and
  the line that links to \<open>adsbx_url\<close>.
\<close>

theorem description_owner_clause_then_link:
  "\<exists>e. alert_embed cfg planedb plane = Inr e \<and>
       description e =
         (if owner plane \<noteq> '''' then ''Operated by **'' @ owner plane @ ''**'' else '''') @
         [CHR 0x0A] @ ''[Track on ADS-B Exchange]('' @ adsbx_url plane @ '')''"
  by (simp add: alert_embed_total split del: if_split cong: if_cong)

theorem description_owner_clause_then_link_witness:
  "\<exists>e. alert_embed Map.empty [''A51316'' \<mapsto> example_plane] example_alert = Inr e \<and>
       description e =
         ''Operated by **NASA**'' @ [CHR 0x0A] @
         ''[Track on ADS-B Exchange](https://adsbexchange.com/x)''"
  using description_owner_clause_then_link
    [of Map.empty "[''A51316'' \<mapsto> example_plane]" example_alert]
  by (auto simp: example_alert_def)

text \<open>
  Claim C7, as stated, fails for the squawk, which is not among the six fields the claim
  excepts: a squawk field with surrounding spaces is stored as it is (and is then not
  recognised as an emergency code).
\<close>

theorem squawk_not_trimmed:
  "\<exists>a. alert_of_row (blank_alert_row @ ['' 7700 '']) = Inr a \<and>
       squawk a = '' 7700 '' \<and> strip '' 7700 '' = ''7700'' \<and> \<not> is_emergency (squawk a)"
  by (simp add: alert_of_row_long blank_alert_row_def strip_def isspace_def is_emergency_def)

text \<open>
  Claim C7, amended. For every valid alert row the loader strips \<open>icao\<close>, \<open>tail_num\<close>,
  \<open>owner\<close> and \<open>callsign\<close>, and passes through as they are \<open>plane_desc\<close>, \<open>date\<close>, \<open>time\<close>,
  \<open>lat\<close>, \<open>long\<close>, \<open>adsbx_url\<close> and the squawk (the eleventh field, the empty string when
  the row has ten).
\<close>

theorem alert_fields_trimmed_or_raw:
  "spec_valid_alert_row row \<Longrightarrow>
   \<exists>a. alert_of_row row = Inr a \<and>
       icao a = strip (row ! 0) \<and> tail_num a = strip (row ! 1) \<and> owner a = strip (row ! 2) \<and>
       callsign a = strip (row ! 8) \<and>
       plane_desc a = row ! 3 \<and> date a = row ! 4 \<and> time a = row ! 5 \<and> lat a = row ! 6 \<and>
       long a = row ! 7 \<and> adsbx_url a = row ! 9 \<and>
       squawk a = (if 10 < length row then row ! 10 else '''')"
  using spec_valid_alert_row_length [of row] by (simp add: alert_of_row_long)

theorem alert_fields_trimmed_or_raw_witness:
  "\<exists>a. alert_of_row
         ['' A51316 '', ''N426NA '', '' NASA'', '' Lockheed P-3B Orion '', '' 2022-01-01'',
          ''12:00:00 '', '' 10.0'', ''-70.0 '', '' NASA1 '', '' https://adsbexchange.com/x'',
          ''7500 ''] = Inr a \<and>
       icao a = ''A51316'' \<and> tail_num a = ''N426NA'' \<and> owner a = ''NASA'' \<and>
       callsign a = ''NASA1'' \<and>
       plane_desc a = '' Lockheed P-3B Orion '' \<and> date a = '' 2022-01-01'' \<and>
       time a = ''12:00:00 '' \<and> lat a = '' 10.0'' \<and> long a = ''-70.0 '' \<and>
       adsbx_url a = '' https://adsbexchange.com/x'' \<and> squawk a = ''7500 ''"
proof -
  let ?row = "['' A51316 '', ''N426NA '', '' NASA'', '' Lockheed P-3B Orion '', '' 2022-01-01'',
          ''12:00:00 '', '' 10.0'', ''-70.0 '', '' NASA1 '', '' https://adsbexchange.com/x'',
          ''7500 '']"
  have v: "spec_valid_alert_row ?row"
    by (simp add: spec_valid_alert_row_def startswith_def)
  from alert_fields_trimmed_or_raw [OF v] show ?thesis
    by (auto simp: strip_def isspace_def)
qed

text \<open>
  Claim C8. The claim says that the database loader skips empty lines. The test for a
  row to skip, \<^verbatim>\<open>row[0].startswith("#") or not row\<close>, subscripts the row before it asks
  whether it is empty, so the empty row that \<^verbatim>\<open>csv.reader\<close> yields for a blank line raises
  an \<open>IndexError\<close>, and the load is aborted.
\<close>

theorem load_planefile_blank_line_raises:
  "plane_row_skipped [] = Inl IndexError \<and>
   load_planefile [example_reference_row, [], duplicate_reference_row] = Inl IndexError"
  by (simp add: load_planefile_def example_rows_not_skipped example_plane_loaded
      example_rows_key plane_row_skipped_Nil)

text \<open>
  Claim C9, as stated, fails: when the delivery call lets an exception escape for the
  first of two alerts, the second alert is never handed to delivery.
\<close>

theorem send_exception_stops_processing:
  "\<exists>e. alert_embed Map.empty Map.empty example_alert = Inr e \<and>
       process_alerts raise_on_first Map.empty Map.empty [example_alert, blank_alert] 0 [] =
         (Some (Raised ''ConnectionError''), Suc 0, [e])"
proof -
  obtain e where e: "alert_embed Map.empty Map.empty example_alert = Inr e"
    by (simp add: alert_embed_total)
  then show ?thesis by (simp add: raise_on_first_def)
qed

text \<open>
  Claim C9, amended. Processing is a strict sequential fold in file order, in which the
  result of a delivery call that returns is not inspected and an exception that escapes
  a delivery call ends the processing. In full: when the alerts \<open>pre\<close> have been
  processed without an exception, leaving the world \<open>w1\<close> and the payloads \<open>hp\<close> handed
  over, then \<open>hp\<close> are the payloads of \<open>pre\<close> in order, and for the next alert
  \<^item> if its delivery call in \<open>w1\<close> lets an exception escape, the processing of the whole
    sequence ends with that exception, and the payloads handed over are \<open>hp\<close> and this
    one: none of the remaining alerts \<open>post\<close> is handed to delivery;
  \<^item> if its delivery call in \<open>w1\<close> returns, the processing goes on with the remaining
    alerts \<open>post\<close>.
  Every run is of one of these two kinds: it ends without an exception and has handed
  over the payload of every alert in order, or it ends with the exception of the delivery
  call for the first alert whose call raised, made in the world the calls before it left,
  and has handed over the payloads up to that alert.
\<close>

theorem process_alerts_hands_prefix_in_order:
  "(process_alerts send planedb cfg pre w [] = (None, w1, hp) \<and>
    alert_embed cfg planedb plane = Inr em \<longrightarrow>
      map Inr hp = map (alert_embed cfg planedb) pre \<and>
      (\<forall>e w2. send w1 cfg ''PA'' em = (Some e, w2) \<longrightarrow>
         process_alerts send planedb cfg (pre @ plane # post) w [] = (Some e, w2, hp @ [em])) \<and>
      (\<forall>w2. send w1 cfg ''PA'' em = (None, w2) \<longrightarrow>
         process_alerts send planedb cfg (pre @ plane # post) w [] =
           process_alerts send planedb cfg post w2 (hp @ [em]))) \<and>
   (case process_alerts send planedb cfg alerts w [] of
      (r, w', handed) \<Rightarrow>
        (case r of
           None \<Rightarrow> map Inr handed = map (alert_embed cfg planedb) alerts
         | Some e \<Rightarrow>
             (\<exists>pre plane post w1 hp em.
                alerts = pre @ plane # post \<and>
                process_alerts send planedb cfg pre w [] = (None, w1, hp) \<and>
                alert_embed cfg planedb plane = Inr em \<and>
                send w1 cfg ''PA'' em = (Some e, w') \<and>
                handed = hp @ [em] \<and>
                map Inr handed = map (alert_embed cfg planedb) (pre @ [plane]))))"
proof (intro conjI impI allI)
  assume a: "process_alerts send planedb cfg pre w [] = (None, w1, hp) \<and>
    alert_embed cfg planedb plane = Inr em"
  then show "map Inr hp = map (alert_embed cfg planedb) pre"
    using process_alerts_None [of send planedb cfg pre w "[]" w1 hp] by simp
  fix w2
  {
    fix e
    assume "send w1 cfg ''PA'' em = (Some e, w2)"
    with a show
      "process_alerts send planedb cfg (pre @ plane # post) w [] = (Some e, w2, hp @ [em])"
      by (simp add: process_alerts_step(1))
  }
  assume "send w1 cfg ''PA'' em = (None, w2)"
  with a show "process_alerts send planedb cfg (pre @ plane # post) w [] =
      process_alerts send planedb cfg post w2 (hp @ [em])"
    by (simp add: process_alerts_step(2))
next
  obtain r w' handed where res: "process_alerts send planedb cfg alerts w [] = (r, w', handed)"
    by (cases "process_alerts send planedb cfg alerts w []") auto
  have "case r of
      None \<Rightarrow> map Inr handed = map (alert_embed cfg planedb) alerts
    | Some e \<Rightarrow>
        (\<exists>pre plane post w1 hp em.
           alerts = pre @ plane # post \<and>
           process_alerts send planedb cfg pre w [] = (None, w1, hp) \<and>
           alert_embed cfg planedb plane = Inr em \<and>
           send w1 cfg ''PA'' em = (Some e, w') \<and>
           handed = hp @ [em] \<and>
           map Inr handed = map (alert_embed cfg planedb) (pre @ [plane]))"
  proof (cases r)
    case None
    with res process_alerts_None [of send planedb cfg alerts w "[]" w' handed]
    show ?thesis by simp
  next
    case (Some e)
    with res have "process_alerts send planedb cfg alerts w [] = (Some e, w', handed)" by simp
    from process_alerts_Some [OF this] obtain pre plane post w1 hp em where
      s: "alerts = pre @ plane # post"
         "process_alerts send planedb cfg pre w [] = (None, w1, hp)"
         "alert_embed cfg planedb plane = Inr em"
         "send w1 cfg ''PA'' em = (Some e, w')" "handed = hp @ [em]"
      by blast
    from process_alerts_None [OF s(2)] s(3) s(5) have
      m: "map Inr handed = map (alert_embed cfg planedb) (pre @ [plane])"
      by simp
    from s m have "\<exists>pre plane post w1 hp em.
           alerts = pre @ plane # post \<and>
           process_alerts send planedb cfg pre w [] = (None, w1, hp) \<and>
           alert_embed cfg planedb plane = Inr em \<and>
           send w1 cfg ''PA'' em = (Some e, w') \<and>
           handed = hp @ [em] \<and>
           map Inr handed = map (alert_embed cfg planedb) (pre @ [plane])"
      by blast
    with Some show ?thesis by (simp only: option.case)
  qed
  then show "case process_alerts send planedb cfg alerts w [] of
      (r, w', handed) \<Rightarrow>
        (case r of
           None \<Rightarrow> map Inr handed = map (alert_embed cfg planedb) alerts
         | Some e \<Rightarrow>
             (\<exists>pre plane post w1 hp em.
                alerts = pre @ plane # post \<and>
                process_alerts send planedb cfg pre w [] = (None, w1, hp) \<and>
                alert_embed cfg planedb plane = Inr em \<and>
                send w1 cfg ''PA'' em = (Some e, w') \<and>
                handed = hp @ [em] \<and>
                map Inr handed = map (alert_embed cfg planedb) (pre @ [plane])))"
    by (simp add: res)
qed

theorem process_alerts_hands_prefix_in_order_witness:
  "\<exists>e1 e2.
      alert_embed Map.empty Map.empty example_alert = Inr e1 \<and>
      alert_embed Map.empty Map.empty blank_alert = Inr e2 \<and>
      process_alerts raise_on_second Map.empty Map.empty [example_alert] 0 [] =
        (None, Suc 0, [e1]) \<and>
      process_alerts raise_on_second Map.empty Map.empty
        [example_alert, blank_alert, example_alert] 0 [] =
        (Some (Raised ''ConnectionError''), Suc (Suc 0), [e1, e2])"
proof -
  obtain e1 where e1: "alert_embed Map.empty Map.empty example_alert = Inr e1"
    by (simp add: alert_embed_total)
  obtain e2 where e2: "alert_embed Map.empty Map.empty blank_alert = Inr e2"
    by (simp add: alert_embed_total)
  have pre: "process_alerts raise_on_second Map.empty Map.empty [example_alert] 0 [] =
      (None, Suc 0, [e1])"
    by (simp add: e1 raise_on_second_def)
  have raised: "raise_on_second (Suc 0) Map.empty ''PA'' e2 =
      (Some (Raised ''ConnectionError''), Suc (Suc 0))"
    by (simp add: raise_on_second_def)
  note t = process_alerts_hands_prefix_in_order
    [where send = raise_on_second and planedb = Map.empty and cfg = Map.empty
       and pre = "[example_alert]" and w = 0 and ?w1.0 = "Suc 0" and hp = "[e1]"
       and plane = blank_alert and em = e2 and post = "[example_alert]"]
  from t pre e2 raised have
    "process_alerts raise_on_second Map.empty Map.empty
       ([example_alert] @ blank_alert # [example_alert]) 0 [] =
       (Some (Raised ''ConnectionError''), Suc (Suc 0), [e1] @ [e2])"
    by blast
  with e1 e2 pre show ?thesis by simp
qed

text \<open>
  Claim C10. After a load that succeeded, a row that is not skipped is stored under its
  first field as it is, and the entry holds that field as its \<open>icao\<close>. The \<open>icao\<close> of every
  loaded alert is stripped. The lookup is exact string matching: for every key it
  returns an entry exactly when some loaded row has that very string as its first field,
  and the empty dictionary otherwise. So for a loaded alert and a loaded row
  \<^item> a first field with surrounding whitespace differs from the alert's \<open>icao\<close>;
  \<^item> if the first field differs from the alert's \<open>icao\<close> (in whitespace, letter case or
    anything else), the row's entry is not what the lookup for the alert returns;
  \<^item> if the first field equals the alert's \<open>icao\<close>, the lookup returns the entry of a loaded
    row with that first field, which holds it as its \<open>icao\<close>, and it returns this row's
    entry when no later loaded row has the same first field.
\<close>

theorem lookup_exact_string_match:
  assumes "load_planefile reader = Inr planedb"
    and "load_alerts areader = Inr alerts"
    and "a \<in> set alerts"
    and "row \<in> set reader"
    and "plane_row_skipped row = Inr False"
  shows "(\<exists>p. planedb (row ! 0) = Some p \<and> p ''icao'' = Some (row ! 0)) \<and>
         strip (icao a) = icao a \<and>
         (strip (row ! 0) \<noteq> row ! 0 \<longrightarrow> row ! 0 \<noteq> icao a) \<and>
         (row ! 0 \<noteq> icao a \<longrightarrow> Inr (get_plane_info planedb (icao a)) \<noteq> plane_of_row row) \<and>
         (row ! 0 = icao a \<longrightarrow>
            get_plane_info planedb (icao a) ''icao'' = Some (icao a) \<and>
            (\<exists>q \<in> set reader. plane_row_skipped q = Inr False \<and> q ! 0 = icao a \<and>
               plane_of_row q = Inr (get_plane_info planedb (icao a)))) \<and>
         (row ! 0 = icao a \<and>
          (\<exists>pre post. reader = pre @ row # post \<and>
             (\<forall>q \<in> set post. plane_row_skipped q = Inr True \<or> q ! 0 \<noteq> row ! 0)) \<longrightarrow>
            plane_of_row row = Inr (get_plane_info planedb (icao a))) \<and>
         ((get_plane_info planedb k \<noteq> Map.empty) =
            (\<exists>q \<in> set reader. plane_row_skipped q = Inr False \<and> q ! 0 = k)) \<and>
         ((get_plane_info planedb (icao a) = Map.empty) =
            (\<forall>q \<in> set reader. plane_row_skipped q = Inr True \<or> q ! 0 \<noteq> icao a))"
proof -
  from assms(1) have l: "load_planefile_loop reader Map.empty = Inr planedb"
    by (simp add: load_planefile_def)
  have inv: "p ''icao'' = Some k" if "planedb k = Some p" for k p
    using load_planefile_loop_icao_field [OF l _ that] by simp
  from load_planefile_loop_stored [OF l assms(4) assms(5)] obtain p where
    p: "planedb (row ! 0) = Some p" by auto
  with inv have stored: "\<exists>p. planedb (row ! 0) = Some p \<and> p ''icao'' = Some (row ! 0)"
    by blast
  have stripped: "strip (icao a) = icao a"
    by (rule loaded_icao_stripped [OF assms(2) assms(3)])
  from load_planefile_loop_member [OF l assms(4) assms(5)] obtain q where
    q: "plane_of_row row = Inr q" "q ''icao'' = Some (row ! 0)" by blast
  have differ: "Inr (get_plane_info planedb (icao a)) \<noteq> plane_of_row row"
    if ne: "row ! 0 \<noteq> icao a"
  proof
    assume "Inr (get_plane_info planedb (icao a)) = plane_of_row row"
    with q(1) have g: "get_plane_info planedb (icao a) = q" by simp
    show False
    proof (cases "planedb (icao a)")
      case None
      with g have "q = Map.empty" by (simp add: get_plane_info_def dict_get_def)
      with q(2) show False by simp
    next
      case (Some p')
      with g have "p' = q" by (simp add: get_plane_info_def dict_get_def)
      with inv [OF Some] q(2) ne show False by simp
    qed
  qed
  note loaded = get_plane_info_loaded [OF assms(1)]
  have same: "get_plane_info planedb (icao a) ''icao'' = Some (icao a) \<and>
      (\<exists>q \<in> set reader. plane_row_skipped q = Inr False \<and> q ! 0 = icao a \<and>
         plane_of_row q = Inr (get_plane_info planedb (icao a)))"
    if eq: "row ! 0 = icao a"
  proof -
    from assms(4) assms(5) eq have
      "\<exists>q \<in> set reader. plane_row_skipped q = Inr False \<and> q ! 0 = icao a" by blast
    with loaded(1) [of "icao a"] have "get_plane_info planedb (icao a) \<noteq> Map.empty" by simp
    from loaded(2) [OF this] loaded(3) [OF this] show ?thesis by simp
  qed
  have last: "plane_of_row row = Inr (get_plane_info planedb (icao a))"
    if h: "row ! 0 = icao a \<and>
      (\<exists>pre post. reader = pre @ row # post \<and>
         (\<forall>q \<in> set post. plane_row_skipped q = Inr True \<or> q ! 0 \<noteq> row ! 0))"
  proof -
    from h obtain pre post where r: "reader = pre @ row # post"
      and n: "\<forall>q \<in> set post. plane_row_skipped q = Inr True \<or> q ! 0 \<noteq> row ! 0"
      by blast
    from plane_row_skipped_Inr [OF assms(5)] have row0: "getitem row 0 = Inr (row ! 0)"
      by (simp add: getitem_def)
    have "\<forall>q \<in> set post. plane_row_skipped q = Inr True \<or> getitem q 0 \<noteq> getitem row 0"
    proof
      fix x
      assume x: "x \<in> set post"
      show "plane_row_skipped x = Inr True \<or> getitem x 0 \<noteq> getitem row 0"
      proof (cases "plane_row_skipped x = Inr True")
        case True
        then show ?thesis by simp
      next
        case False
        with n x have "x ! 0 \<noteq> row ! 0" by blast
        then have "getitem x 0 \<noteq> Inr (row ! 0)" by (auto simp: getitem_def)
        with row0 show ?thesis by simp
      qed
    qed
    with load_planefile_loop_last_row [of pre row post Map.empty planedb] l r assms(5)
    obtain p' where "plane_of_row row = Inr p'" "planedb (row ! 0) = Some p'" by auto
    with h show ?thesis by (simp add: get_plane_info_def dict_get_def)
  qed
  have none: "(get_plane_info planedb (icao a) = Map.empty) =
      (\<forall>q \<in> set reader. plane_row_skipped q = Inr True \<or> q ! 0 \<noteq> icao a)"
  proof -
    have "plane_row_skipped x = Inr True \<or> plane_row_skipped x = Inr False"
      if "x \<in> set reader" for x
    proof -
      from that obtain pre post where "reader = pre @ x # post" by (auto dest: split_list)
      with l load_planefile_loop_append [of pre "x # post" Map.empty planedb] obtain mid where
        "load_planefile_loop (x # post) mid = Inr planedb" by auto
      from load_planefile_loop_Cons_Inr [OF this] have "x \<noteq> []" by simp
      then show ?thesis by (cases x) (auto simp: plane_row_skipped_Cons)
    qed
    then have "(\<forall>q \<in> set reader. plane_row_skipped q = Inr True \<or> q ! 0 \<noteq> icao a) =
        (\<not> (\<exists>q \<in> set reader. plane_row_skipped q = Inr False \<and> q ! 0 = icao a))"
      by auto
    with loaded(1) [of "icao a"] show ?thesis by blast
  qed
  have c3: "strip (row ! 0) \<noteq> row ! 0 \<longrightarrow> row ! 0 \<noteq> icao a"
    using stripped by auto
  have c4: "row ! 0 \<noteq> icao a \<longrightarrow>
      Inr (get_plane_info planedb (icao a)) \<noteq> plane_of_row row"
    using differ by blast
  have c5: "row ! 0 = icao a \<longrightarrow>
      get_plane_info planedb (icao a) ''icao'' = Some (icao a) \<and>
      (\<exists>q \<in> set reader. plane_row_skipped q = Inr False \<and> q ! 0 = icao a \<and>
         plane_of_row q = Inr (get_plane_info planedb (icao a)))"
    using same by blast
  have c6: "row ! 0 = icao a \<and>
      (\<exists>pre post. reader = pre @ row # post \<and>
         (\<forall>q \<in> set post. plane_row_skipped q = Inr True \<or> q ! 0 \<noteq> row ! 0)) \<longrightarrow>
      plane_of_row row = Inr (get_plane_info planedb (icao a))"
    using last by blast
  show ?thesis
    by (intro conjI) (rule stored stripped c3 c4 c5 c6 loaded(1) none)+
qed

theorem lookup_exact_string_match_witness:
  "\<exists>planedb.
      load_planefile [example_reference_row, spaced_reference_row] = Inr planedb \<and>
      load_alerts [example_alert_row] = Inr [example_alert] \<and>
      example_reference_row ! 0 = ''A51316'' \<and> spaced_reference_row ! 0 = '' A51316'' \<and>
      icao example_alert = ''A51316'' \<and>
      get_plane_info planedb (icao example_alert) = example_plane \<and>
      Inr (get_plane_info planedb (icao example_alert)) \<noteq> plane_of_row spaced_reference_row"
proof -
  have s: "plane_row_skipped spaced_reference_row = Inr False"
    by (simp add: spaced_reference_row_def plane_row_skipped_Cons startswith_def)
  have e: "plane_row_skipped example_reference_row = Inr False"
    by (rule example_rows_not_skipped)
  have "\<forall>row \<in> set [example_reference_row, spaced_reference_row].
      row \<noteq> [] \<and> (startswith (row ! 0) ''#'' \<or> 4 \<le> length row)"
    by (simp add: spaced_reference_row_def example_reference_row_def)
  from load_planefile_loop_total [OF this, of Map.empty] obtain planedb where
    l: "load_planefile [example_reference_row, spaced_reference_row] = Inr planedb"
    by (auto simp: load_planefile_def)
  have "alert_row_skipped example_alert_row = Inr False"
    by (simp add: alert_row_skipped_def example_alert_row_def getitem_def startswith_def)
  then have a: "load_alerts [example_alert_row] = Inr [example_alert]"
    by (simp add: load_alerts_def example_alert_loaded)
  have k: "example_reference_row ! 0 = ''A51316''" "spaced_reference_row ! 0 = '' A51316''"
    "icao example_alert = ''A51316''"
    by (simp_all add: spaced_reference_row_def example_reference_row_def example_alert_def)
  have m: "example_alert \<in> set [example_alert]" by simp
  have split: "\<exists>pre post.
      [example_reference_row, spaced_reference_row] = pre @ example_reference_row # post \<and>
      (\<forall>q \<in> set post. plane_row_skipped q = Inr True \<or> q ! 0 \<noteq> example_reference_row ! 0)"
  proof (intro exI conjI)
    show "[example_reference_row, spaced_reference_row] =
        [] @ example_reference_row # [spaced_reference_row]" by simp
    show "\<forall>q \<in> set [spaced_reference_row].
        plane_row_skipped q = Inr True \<or> q ! 0 \<noteq> example_reference_row ! 0"
      by (simp add: k)
  qed
  from lookup_exact_string_match [OF l a m _ s] k
  have ne: "Inr (get_plane_info planedb (icao example_alert)) \<noteq>
      plane_of_row spaced_reference_row"
    by simp
  from lookup_exact_string_match [OF l a m _ e] k split
  have "plane_of_row example_reference_row = Inr (get_plane_info planedb (icao example_alert))"
    by simp
  then have "get_plane_info planedb (icao example_alert) = example_plane"
    by (simp add: example_plane_loaded)
  with l a k ne show ?thesis by blast
qed

end
